theory Spec2Isabelle
  imports Complex_Main
begin

section \<open>Arrays, errors and argument values\<close>

text \<open>
  The module under study is \<^verbatim>\<open>src/PyLorentz/dataset/defocused_dataset.py\<close>, the class
  \<^verbatim>\<open>DefocusedDataset\<close>.

  A two-dimensional float64 array is the list of its rows, a three-dimensional one (an
  image stack) the list of its frames. An array with an empty axis is the empty list on
  that axis, and the lengths of its further axes are then read as 0. Pixel values are
  idealised as reals; no theorem below depends on pixel arithmetic, which only happens
  inside the library functions that are parameters of the model.
\<close>

type_synonym image = "real list list"
type_synonym stack = "image list"

datatype error = ValueError | TypeError | IndexError | AttributeError | OverflowError

text \<open>A Python float: a finite value (idealised as a real number), an infinity, or NaN.\<close>

datatype pyfloat = Finite real | PosInf | NegInf | NaN

text \<open>A Python value as far as \<^verbatim>\<open>isinstance(val, (float, int))\<close> tells values apart
  (\<^verbatim>\<open>bool\<close> is a subclass of \<^verbatim>\<open>int\<close>). Integers are unbounded.\<close>

datatype pyval = PyNone | PyBool bool | PyInt int | PyFloat pyfloat | PyStr string

text \<open>The \<^verbatim>\<open>images\<close> argument (2-D or 3-D array), the \<^verbatim>\<open>defvals\<close> argument
  (\<^verbatim>\<open>None\<close>, a scalar, or a sequence) and the \<^verbatim>\<open>idx\<close> argument of \<^verbatim>\<open>filter\<close>
  (\<^verbatim>\<open>None\<close>, an int, a list or array of ints, anything else).\<close>

datatype images_arg = Img2 image | Img3 stack
datatype defvals_arg = DvNone | DvScalar real | DvSeq "real list"
datatype idx_arg = IdxNone | IdxInt int | IdxList "int list" | IdxOther

text \<open>\<^verbatim>\<open>if np.ndim(ims) == 2: ims = ims[None]\<close>\<close>

fun promote :: "images_arg \<Rightarrow> stack" where
  "promote (Img2 im) = [im]"
| "promote (Img3 st) = st"

text \<open>\<^verbatim>\<open>arr.shape\<close> of a 2-D array.\<close>

definition shape_of :: "image \<Rightarrow> nat \<times> nat" where
  "shape_of im = (length im, (case im of [] \<Rightarrow> 0 | r # _ \<Rightarrow> length r))"

text \<open>\<^verbatim>\<open>images.shape[1:]\<close> of a 3-D array.\<close>

definition frame_shape :: "stack \<Rightarrow> nat \<times> nat" where
  "frame_shape st = (case st of [] \<Rightarrow> (0, 0) | im # _ \<Rightarrow> shape_of im)"

subsection \<open>Indexing the first axis\<close>

text \<open>An integer index \<open>i\<close> into an axis of length \<open>n\<close>: valid from \<open>-n\<close> to \<open>n - 1\<close>,
  negative ones counting from the end; anything else raises IndexError (\<open>None\<close>).\<close>

definition norm_index :: "nat \<Rightarrow> int \<Rightarrow> nat option" where
  "norm_index n i =
     (if 0 \<le> i \<and> i < int n then Some (nat i)
      else if - int n \<le> i \<and> i < 0 then Some (nat (i + int n))
      else None)"

definition norm_indices :: "nat \<Rightarrow> int list \<Rightarrow> nat list option" where
  "norm_indices n ixs = those (map (norm_index n) ixs)"

text \<open>\<^verbatim>\<open>arr[indices]\<close> with a list of integers: the selected frames, as a new array.\<close>

definition take_frames :: "stack \<Rightarrow> int list \<Rightarrow> stack option" where
  "take_frames arr ixs = map_option (map (\<lambda>j. arr ! j)) (norm_indices (length arr) ixs)"

text \<open>Broadcasting a value frame to the shape of the frame it replaces: the same shape,
  or a singleton axis repeated. For rectangular arrays the first test is the special case
  of equal shapes.\<close>

definition bcast_axis :: "nat \<Rightarrow> 'a list \<Rightarrow> 'a list option" where
  "bcast_axis n xs =
     (if length xs = n then Some xs
      else if length xs = 1 then Some (replicate n (hd xs))
      else None)"

definition broadcast_to :: "image \<Rightarrow> image \<Rightarrow> image option" where
  "broadcast_to tpl v =
     (if map length v = map length tpl then Some v
      else (case bcast_axis (fst (shape_of tpl)) v of
              None \<Rightarrow> None
            | Some rows \<Rightarrow> those (map (bcast_axis (snd (shape_of tpl))) rows)))"

text \<open>Writing the value frames one by one at already normalised positions; a later
  write to the same position wins.\<close>

fun write_frames :: "stack \<Rightarrow> (nat \<times> image) list \<Rightarrow> stack option" where
  "write_frames arr [] = Some arr"
| "write_frames arr ((j, v) # rest) =
     (case broadcast_to (arr ! j) v of
        None \<Rightarrow> None
      | Some v' \<Rightarrow> write_frames (arr[j := v']) rest)"

text \<open>\<^verbatim>\<open>arr[indices] = vals\<close>, \<open>vals\<close> holding one frame per index: IndexError for an
  index out of range, ValueError when a frame cannot be broadcast; nothing is written
  in either case.\<close>

definition put_frames :: "stack \<Rightarrow> int list \<Rightarrow> stack \<Rightarrow> error + stack" where
  "put_frames arr ixs vals =
     (case norm_indices (length arr) ixs of
        None \<Rightarrow> Inl IndexError
      | Some js \<Rightarrow>
          (case write_frames arr (zip js vals) of
             None \<Rightarrow> Inl ValueError
           | Some arr' \<Rightarrow> Inr arr'))"

text \<open>\<^verbatim>\<open>np.zeros_like\<close> of a 3-D array.\<close>

definition zeros_like :: "stack \<Rightarrow> stack" where
  "zeros_like st = map (map (map (\<lambda>_. 0))) st"

subsection \<open>Slicing\<close>

text \<open>A Python slice \<^verbatim>\<open>xs[lo:hi]\<close> with integer bounds: a negative bound counts from
  the end, and both are clamped to the axis.\<close>

definition slice_bound :: "nat \<Rightarrow> int \<Rightarrow> nat" where
  "slice_bound n i = (if i < 0 then nat (max 0 (i + int n)) else min n (nat i))"

definition py_slice :: "int \<Rightarrow> int \<Rightarrow> 'a list \<Rightarrow> 'a list" where
  "py_slice lo hi xs =
     (let a = slice_bound (length xs) lo; b = slice_bound (length xs) hi
      in take (b - a) (drop a xs))"

section \<open>The dataset object\<close>

text \<open>The \<^verbatim>\<open>_transforms\<close> dictionary (rotation angle and crop box) and the
  \<^verbatim>\<open>_filters\<close> dictionary, with the keys the class reads and writes.\<close>

record transforms =
  rotation :: real
  crop_top :: int
  crop_bottom :: int
  crop_left :: int
  crop_right :: int

record filters =
  hotpix :: bool
  median :: "int option"
  q_lowpass :: "real option"
  q_highpass :: "real option"
  filter_type :: string
  butterworth_order :: int

text \<open>
  The functions the class calls and does not define: \<^verbatim>\<open>scipy.ndimage.rotate\<close> with
  \<^verbatim>\<open>reshape=False\<close>, \<^verbatim>\<open>filter_hotpix\<close>, \<^verbatim>\<open>scipy.ndimage.median_filter\<close> with
  \<^verbatim>\<open>size=(1, m, m)\<close> (which never mixes frames, so it is given frame by frame), and of
  the base class \<^verbatim>\<open>_bandpass_filter\<close> and the interactive \<^verbatim>\<open>_select_ROI\<close>, which
  writes the chosen rectangle into the transform parameters. They are parameters of the
  model: pure functions, as the spec describes them. Each image function is documented to
  return an array of the shape of its argument, so the element assignments
  \<^verbatim>\<open>a[i] = f(a[i])\<close> of the class are modelled as plain replacements; where a theorem
  needs that of the bandpass filter, it says so (\<open>keeps_shape\<close>).
\<close>

record lib =
  ndi_rotate :: "image \<Rightarrow> real \<Rightarrow> image"
  filter_hotpix :: "image \<Rightarrow> bool \<Rightarrow> image"
  median_filter :: "int \<Rightarrow> image \<Rightarrow> image"
  bandpass_filter :: "image \<Rightarrow> real option \<Rightarrow> real option \<Rightarrow> string \<Rightarrow> int \<Rightarrow> image"
  base_select_ROI :: "image \<Rightarrow> transforms \<Rightarrow> transforms"

text \<open>The value of \<^verbatim>\<open>_images_filtered\<close>: \<^verbatim>\<open>None\<close>, the zero-dimensional array
  that \<^verbatim>\<open>np.zeros_like(None)\<close> returns, or a reference to a stack.\<close>

datatype fcache = FNone | FZeroDim | FArr nat

text \<open>
  The object. Its array attributes are references into a store of arrays (\<open>heap\<close>, with
  \<open>nxt\<close> the next unused reference), because the class writes into some of them in place
  (\<^verbatim>\<open>self.images[i] = ...\<close>, \<^verbatim>\<open>self._images_filtered[indices] = ...\<close>) and
  relies on \<^verbatim>\<open>.copy()\<close> and \<^verbatim>\<open>np.array\<close> to keep them apart. An array that a method
  holds only in a local variable, itself a copy, is a plain value.
  \<open>beam_energy_priv\<close> is the attribute \<^verbatim>\<open>_beam_energy\<close>, \<open>None\<close> while the object has no
  such attribute. The attributes no modelled method reads (paths, scale, mask, verbosity,
  the simulated flag) are left out.
\<close>

record dataset =
  heap :: "nat \<Rightarrow> stack"
  nxt :: nat
  images_ref :: nat
  orig_images :: nat
  orig_shape :: "nat \<times> nat"
  orig_images_preprocessed :: "nat option"
  images_cropped :: "nat option"
  images_filtered :: fcache
  defvals :: "real list"
  beam_energy :: pyval
  beam_energy_priv :: "pyfloat option"
  preprocessed :: bool
  cropped :: bool
  filtered :: bool
  transforms :: transforms
  transforms_modified :: bool
  filters :: filters

text \<open>A method either returns or raises; in both cases the object is left in some state.\<close>

datatype outcome = Done dataset | Raised error dataset

fun state_of :: "outcome \<Rightarrow> dataset" where
  "state_of (Done s) = s"
| "state_of (Raised e s) = s"

fun and_then :: "outcome \<Rightarrow> (dataset \<Rightarrow> outcome) \<Rightarrow> outcome" where
  "and_then (Done s) f = f s"
| "and_then (Raised e s) f = Raised e s"

text \<open>Creating an array, binding an attribute to a newly created array
  (\<^verbatim>\<open>self._images = np.array(ims)\<close>, \<^verbatim>\<open>self._images_cropped = images.copy()\<close>
  and the like), and writing into an existing array in place.\<close>

definition fresh :: "stack \<Rightarrow> dataset \<Rightarrow> dataset" where
  "fresh st s = s\<lparr>heap := (heap s)(nxt s := st), nxt := Suc (nxt s)\<rparr>"

definition bind_images :: "stack \<Rightarrow> dataset \<Rightarrow> dataset" where
  "bind_images st s = (fresh st s)\<lparr>images_ref := nxt s\<rparr>"

definition bind_preprocessed :: "stack \<Rightarrow> dataset \<Rightarrow> dataset" where
  "bind_preprocessed st s = (fresh st s)\<lparr>orig_images_preprocessed := Some (nxt s)\<rparr>"

definition bind_cropped :: "stack \<Rightarrow> dataset \<Rightarrow> dataset" where
  "bind_cropped st s = (fresh st s)\<lparr>images_cropped := Some (nxt s)\<rparr>"

definition bind_filtered :: "stack \<Rightarrow> dataset \<Rightarrow> dataset" where
  "bind_filtered st s = (fresh st s)\<lparr>images_filtered := FArr (nxt s)\<rparr>"

definition overwrite :: "nat \<Rightarrow> stack \<Rightarrow> dataset \<Rightarrow> dataset" where
  "overwrite a st s = s\<lparr>heap := (heap s)(a := st)\<rparr>"

text \<open>The arrays as the user sees them.\<close>

definition images :: "dataset \<Rightarrow> stack" where
  "images s = heap s (images_ref s)"

definition raw :: "dataset \<Rightarrow> stack" where
  "raw s = heap s (orig_images s)"

definition preprocessed_cache :: "dataset \<Rightarrow> stack option" where
  "preprocessed_cache s = map_option (heap s) (orig_images_preprocessed s)"

definition cropped_cache :: "dataset \<Rightarrow> stack option" where
  "cropped_cache s = map_option (heap s) (images_cropped s)"

definition filtered_cache :: "dataset \<Rightarrow> stack option" where
  "filtered_cache s = (case images_filtered s of FArr f \<Rightarrow> Some (heap s f) | _ \<Rightarrow> None)"

subsection \<open>Properties\<close>

text \<open>The \<^verbatim>\<open>images\<close> setter once \<^verbatim>\<open>_defvals\<close> exists: \<^verbatim>\<open>np.array(ims)\<close> is a new
  array, checked against the defocus values and then bound to \<^verbatim>\<open>_images\<close>.\<close>

definition images_setter :: "stack \<Rightarrow> dataset \<Rightarrow> outcome" where
  "images_setter ims s =
     (if length ims \<noteq> length (defvals s) then Raised ValueError s
      else Done (bind_images ims s))"

definition set_images :: "images_arg \<Rightarrow> dataset \<Rightarrow> outcome" where
  "set_images ims s = images_setter (promote ims) s"

text \<open>The \<^verbatim>\<open>defvals\<close> setter once \<^verbatim>\<open>_images\<close> exists, \<open>n\<close> being
  \<^verbatim>\<open>len(self.images)\<close>: a scalar becomes a one-element array, \<^verbatim>\<open>len(None)\<close> is a
  TypeError.\<close>

definition defvals_checked :: "defvals_arg \<Rightarrow> nat \<Rightarrow> error + real list" where
  "defvals_checked dfs n =
     (case dfs of
        DvNone \<Rightarrow> Inl TypeError
      | DvScalar d \<Rightarrow> (if 1 \<noteq> n then Inl ValueError else Inr [d])
      | DvSeq ds \<Rightarrow> (if length ds \<noteq> n then Inl ValueError else Inr ds))"

definition set_defvals :: "defvals_arg \<Rightarrow> dataset \<Rightarrow> outcome" where
  "set_defvals dfs s =
     (case defvals_checked dfs (length (images s)) of
        Inl e \<Rightarrow> Raised e s
      | Inr ds \<Rightarrow> Done (s\<lparr>defvals := ds\<rparr>))"

text \<open>The \<^verbatim>\<open>energy\<close> getter reads \<^verbatim>\<open>_beam_energy\<close>.\<close>

definition energy :: "dataset \<Rightarrow> error + pyfloat" where
  "energy s = (case beam_energy_priv s of None \<Rightarrow> Inl AttributeError | Some v \<Rightarrow> Inr v)"

text \<open>The values that pass \<^verbatim>\<open>isinstance(val, (float, int))\<close>: an int (\<^verbatim>\<open>True\<close> and
  \<^verbatim>\<open>False\<close> are the ints 1 and 0) or a float.\<close>

datatype number = NInt int | NFloat pyfloat

fun as_number :: "pyval \<Rightarrow> number option" where
  "as_number (PyInt i) = Some (NInt i)"
| "as_number (PyBool b) = Some (NInt (if b then 1 else 0))"
| "as_number (PyFloat f) = Some (NFloat f)"
| "as_number _ = None"

text \<open>\<^verbatim>\<open>val <= 0\<close>: exact on an int; on a float, false for NaN.\<close>

fun nonpositive :: "number \<Rightarrow> bool" where
  "nonpositive (NInt i) = (i \<le> 0)"
| "nonpositive (NFloat (Finite r)) = (r \<le> 0)"
| "nonpositive (NFloat PosInf) = False"
| "nonpositive (NFloat NegInf) = True"
| "nonpositive (NFloat NaN) = False"

text \<open>\<^verbatim>\<open>float(val)\<close> of an int: the nearest number with 53 significant bits, a tie
  going to the even one, and an OverflowError when that is \<open>2 ^ 1024\<close> or more.
  \<open>bit_length\<close> is \<^verbatim>\<open>int.bit_length\<close>.\<close>

fun bit_length :: "nat \<Rightarrow> nat" where
  "bit_length n = (if n = 0 then 0 else Suc (bit_length (n div 2)))"

definition round_to_double :: "nat \<Rightarrow> nat" where
  "round_to_double a =
     (let e = bit_length a - 53; q = a div 2 ^ e; r = a mod 2 ^ e
      in if 2 ^ e < 2 * r \<or> (2 * r = 2 ^ e \<and> odd q) then (q + 1) * 2 ^ e else q * 2 ^ e)"

definition float_of_int :: "int \<Rightarrow> error + pyfloat" where
  "float_of_int i =
     (let m = round_to_double (nat \<bar>i\<bar>)
      in if 2 ^ 1024 \<le> m then Inl OverflowError
         else Inr (Finite (if i < 0 then - real m else real m)))"

text \<open>\<^verbatim>\<open>float(val)\<close>: a float is returned as it is.\<close>

fun float_of :: "number \<Rightarrow> error + pyfloat" where
  "float_of (NInt i) = float_of_int i"
| "float_of (NFloat f) = Inr f"

text \<open>The \<^verbatim>\<open>energy\<close> setter, lines 196 to 200: the type test, the sign test, then
  \<^verbatim>\<open>self._beam_energy = float(val)\<close>.\<close>

definition set_energy :: "pyval \<Rightarrow> dataset \<Rightarrow> outcome" where
  "set_energy val s =
     (case as_number val of
        None \<Rightarrow> Raised TypeError s
      | Some n \<Rightarrow>
          (if nonpositive n then Raised ValueError s
           else (case float_of n of
                   Inl e \<Rightarrow> Raised e s
                 | Inr f \<Rightarrow> Done (s\<lparr>beam_energy_priv := Some f\<rparr>))))"

subsection \<open>Construction\<close>

text \<open>Modelled from the spec: \<^verbatim>\<open>BaseDataset.__init__\<close> and
  \<^verbatim>\<open>BaseDataset._reset_transforms\<close> are not in the sources. The spec gives the base
  class the scale and verbosity fields, the transform parameters and their reset to the
  default: rotation zero and the crop box the full frame of the original shape.\<close>

definition default_transforms :: "nat \<times> nat \<Rightarrow> transforms" where
  "default_transforms shp =
     \<lparr>rotation = 0, crop_top = 0, crop_bottom = int (fst shp),
      crop_left = 0, crop_right = int (snd shp)\<rparr>"

text \<open>
  \<^verbatim>\<open>__init__\<close>. \<open>F\<close> is the \<^verbatim>\<open>_filters\<close> dictionary as the base class leaves it.
  Line 64 binds \<^verbatim>\<open>_images\<close> to a new array (no check: \<^verbatim>\<open>_defvals\<close> does not exist
  yet), line 65 binds \<^verbatim>\<open>_orig_images\<close> to a copy, line 70 runs the \<^verbatim>\<open>defvals\<close>
  setter, line 71 stores the energy argument in the plain attribute \<^verbatim>\<open>beam_energy\<close>.
  When the setter of line 70 raises, the caller gets no object.
\<close>

definition init :: "filters \<Rightarrow> images_arg \<Rightarrow> defvals_arg \<Rightarrow> pyval \<Rightarrow> error + dataset" where
  "init F ims dfs en =
     (let st = promote ims in
      case defvals_checked dfs (length st) of
        Inl e \<Rightarrow> Inl e
      | Inr ds \<Rightarrow>
          Inr \<lparr>heap = ((\<lambda>_. []) (0 := st)) (1 := st), nxt = 2,
               images_ref = 0, orig_images = 1, orig_shape = frame_shape st,
               orig_images_preprocessed = None, images_cropped = None,
               images_filtered = FNone, defvals = ds,
               beam_energy = en, beam_energy_priv = None,
               preprocessed = False, cropped = False, filtered = False,
               transforms = default_transforms (frame_shape st),
               transforms_modified = False, filters = F\<rparr>)"

section \<open>The stages\<close>

text \<open>\<^verbatim>\<open>images[:, top:bottom, left:right]\<close> on one frame.\<close>

definition crop :: "transforms \<Rightarrow> image \<Rightarrow> image" where
  "crop T im =
     map (py_slice (crop_left T) (crop_right T)) (py_slice (crop_top T) (crop_bottom T) im)"

text \<open>The local array of \<^verbatim>\<open>apply_transforms\<close> after rotation and crop.\<close>

definition transformed :: "lib \<Rightarrow> transforms \<Rightarrow> stack \<Rightarrow> stack" where
  "transformed L T st =
     map (crop T)
       (if rotation T \<noteq> 0 then map (\<lambda>im. ndi_rotate L im (rotation T)) st else st)"

text \<open>\<^verbatim>\<open>self._bandpass_filter\<close> with the recorded parameters.\<close>

definition recorded_bandpass :: "lib \<Rightarrow> filters \<Rightarrow> image \<Rightarrow> image" where
  "recorded_bandpass L F im =
     bandpass_filter L im (q_lowpass F) (q_highpass F) (filter_type F) (butterworth_order F)"

text \<open>The base of the transform stage and of the ROI preview: Preprocessed when the
  preprocessed flag is set, else Raw.\<close>

definition transform_base :: "dataset \<Rightarrow> nat option" where
  "transform_base s =
     (if preprocessed s then orig_images_preprocessed s else Some (orig_images s))"

text \<open>\<^verbatim>\<open>apply_transforms\<close>. The local array is a copy of the base
  (\<^verbatim>\<open>None.copy()\<close> would be an AttributeError).\<close>

definition apply_transforms :: "lib \<Rightarrow> dataset \<Rightarrow> outcome" where
  "apply_transforms L s =
     (case transform_base s of
        None \<Rightarrow> Raised AttributeError s
      | Some b \<Rightarrow>
          (let ims = transformed L (transforms s) (heap s b);
               s1 = bind_cropped ims s;
               ims' = (if filtered s1 then map (recorded_bandpass L (filters s1)) ims else ims);
               s2 = (if filtered s1 then bind_filtered ims' s1 else s1)
           in and_then (images_setter ims' s2)
                (\<lambda>s3. Done (s3\<lparr>transforms_modified := False, cropped := True\<rparr>))))"

text \<open>\<^verbatim>\<open>preprocess\<close>, lines 284 to 297: Current View is reset to a copy of Raw,
  processed (the hot-pixel loop writes in place, the median filter returns a new array),
  and copied into Preprocessed.\<close>

definition preprocess_images :: "lib \<Rightarrow> bool \<Rightarrow> int option \<Rightarrow> bool \<Rightarrow> dataset \<Rightarrow> outcome" where
  "preprocess_images L hp msize fast s =
     and_then (images_setter (raw s) s) (\<lambda>s1.
     (let s2 = (if hp
                then overwrite (images_ref s1)
                       (map (\<lambda>im. filter_hotpix L im fast) (images s1)) s1
                else s1)
      in and_then (case msize of
                     None \<Rightarrow> Done s2
                   | Some m \<Rightarrow> images_setter (map (median_filter L m) (images s2)) s2) (\<lambda>s3.
         (let s4 = s3\<lparr>preprocessed := True\<rparr>
          in Done (bind_preprocessed (images s4) s4)))))"

text \<open>\<^verbatim>\<open>preprocess\<close>: then the transform stage runs again (line 298) and the options
  are recorded (lines 299 and 300).\<close>

definition preprocess :: "lib \<Rightarrow> bool \<Rightarrow> int option \<Rightarrow> bool \<Rightarrow> dataset \<Rightarrow> outcome" where
  "preprocess L hp msize fast s =
     and_then (preprocess_images L hp msize fast s) (\<lambda>s5.
     and_then (apply_transforms L s5) (\<lambda>s6.
       Done (s6\<lparr>filters := (filters s6)\<lparr>hotpix := hp, median := msize\<rparr>\<rparr>)))"

text \<open>\<^verbatim>\<open>reset_transforms\<close>.\<close>

definition reset_transforms :: "lib \<Rightarrow> dataset \<Rightarrow> outcome" where
  "reset_transforms L s =
     apply_transforms L (s\<lparr>transforms := default_transforms (orig_shape s)\<rparr>)"

text \<open>\<^verbatim>\<open>filter\<close>, lines 378 to 387: the indices, \<open>n\<close> being \<^verbatim>\<open>len(self)\<close>.\<close>

fun indices_of :: "nat \<Rightarrow> idx_arg \<Rightarrow> int list option" where
  "indices_of n IdxNone = Some (map int [0..<n])"
| "indices_of n (IdxInt i) = Some [i]"
| "indices_of n (IdxList ixs) = Some ixs"
| "indices_of n IdxOther = None"

text \<open>Lines 389 to 394: the cache the input is read from (subscripting \<^verbatim>\<open>None\<close>
  would be a TypeError).\<close>

definition filter_input :: "dataset \<Rightarrow> nat option" where
  "filter_input s =
     (if cropped s then images_cropped s
      else if preprocessed s then orig_images_preprocessed s
      else Some (orig_images s))"

text \<open>Lines 433 and 434: \<^verbatim>\<open>np.zeros_like(self._images_cropped)\<close> when
  \<^verbatim>\<open>_images_filtered\<close> is \<^verbatim>\<open>None\<close>; of \<^verbatim>\<open>None\<close> it is a zero-dimensional array.\<close>

definition allocate_filtered :: "dataset \<Rightarrow> dataset" where
  "allocate_filtered s =
     (case images_filtered s of
        FNone \<Rightarrow>
          (case images_cropped s of
             None \<Rightarrow> s\<lparr>images_filtered := FZeroDim\<rparr>
           | Some c \<Rightarrow> bind_filtered (zeros_like (heap s c)) s)
      | _ \<Rightarrow> s)"

text \<open>Lines 435 and 436: the two writes in place. Indexing the zero-dimensional array
  is an IndexError.\<close>

definition commit_filtered :: "int list \<Rightarrow> stack \<Rightarrow> dataset \<Rightarrow> outcome" where
  "commit_filtered ixs filtered_ims s =
     (case images_filtered s of
        FArr f \<Rightarrow>
          (case put_frames (heap s f) ixs filtered_ims of
             Inl e \<Rightarrow> Raised e s
           | Inr arr \<Rightarrow>
               (let s' = overwrite f arr s in
                case put_frames (images s') ixs filtered_ims of
                  Inl e \<Rightarrow> Raised e s'
                | Inr arr' \<Rightarrow> Done (overwrite (images_ref s') arr' s')))
      | _ \<Rightarrow> Raised IndexError s)"

text \<open>\<^verbatim>\<open>filter\<close> (the optional display of line 402 changes nothing in the object).\<close>

definition filter_stage ::
  "lib \<Rightarrow> real option \<Rightarrow> real option \<Rightarrow> string \<Rightarrow> int \<Rightarrow> idx_arg \<Rightarrow> dataset \<Rightarrow> outcome" where
  "filter_stage L ql qh ft bo idx s =
     (case indices_of (length (images s)) idx of
        None \<Rightarrow> Raised TypeError s
      | Some ixs \<Rightarrow>
          (case filter_input s of
             None \<Rightarrow> Raised TypeError s
           | Some b \<Rightarrow>
               (case take_frames (heap s b) ixs of
                  None \<Rightarrow> Raised IndexError s
                | Some input_ims \<Rightarrow>
                    (let filtered_ims = map (\<lambda>im. bandpass_filter L im ql qh ft bo) input_ims;
                         s1 = s\<lparr>filtered := True,
                                filters := (filters s)\<lparr>q_lowpass := ql, q_highpass := qh,
                                             filter_type := ft, butterworth_order := bo\<rparr>\<rparr>
                     in commit_filtered ixs filtered_ims (allocate_filtered s1)))))"

text \<open>\<^verbatim>\<open>select_ROI\<close>: the image shown to the user, then the base class's primitive,
  which writes the chosen rectangle into the transform parameters.\<close>

definition select_ROI :: "lib \<Rightarrow> int \<Rightarrow> image option \<Rightarrow> dataset \<Rightarrow> outcome" where
  "select_ROI L idx img s =
     (case img of
        Some im \<Rightarrow>
          (if shape_of im \<noteq> orig_shape s then Raised ValueError s
           else Done (s\<lparr>transforms := base_select_ROI L im (transforms s)\<rparr>))
      | None \<Rightarrow>
          (case transform_base s of
             None \<Rightarrow> Raised TypeError s
           | Some b \<Rightarrow>
               (case norm_index (length (heap s b)) idx of
                  None \<Rightarrow> Raised IndexError s
                | Some j \<Rightarrow>
                    (let im = heap s b ! j;
                         im' = (if filtered s then recorded_bandpass L (filters s) im else im)
                     in Done (s\<lparr>transforms := base_select_ROI L im' (transforms s)\<rparr>)))))"

section \<open>Sequences of calls\<close>

text \<open>What a user of the object can do to it. \<open>SetTransforms\<close> is the user changing the
  rotation angle or the crop box. An exception leaves the object as it is at that moment,
  and the next call goes on from there.\<close>

datatype call =
    Preprocess bool "int option" bool
  | ApplyTransforms
  | Filter "real option" "real option" string int idx_arg
  | ResetTransforms
  | SelectROI int "image option"
  | SetImages images_arg
  | SetDefvals defvals_arg
  | SetEnergy pyval
  | SetTransforms transforms

fun perform :: "lib \<Rightarrow> call \<Rightarrow> dataset \<Rightarrow> outcome" where
  "perform L (Preprocess hp msize fast) s = preprocess L hp msize fast s"
| "perform L ApplyTransforms s = apply_transforms L s"
| "perform L (Filter ql qh ft bo idx) s = filter_stage L ql qh ft bo idx s"
| "perform L ResetTransforms s = reset_transforms L s"
| "perform L (SelectROI idx img) s = select_ROI L idx img s"
| "perform L (SetImages ims) s = set_images ims s"
| "perform L (SetDefvals dfs) s = set_defvals dfs s"
| "perform L (SetEnergy v) s = set_energy v s"
| "perform L (SetTransforms T) s = Done (s\<lparr>transforms := T\<rparr>)"

fun run :: "lib \<Rightarrow> call list \<Rightarrow> dataset \<Rightarrow> dataset" where
  "run L [] s = s"
| "run L (c # cs) s = run L cs (state_of (perform L c s))"

section \<open>Invariants\<close>

text \<open>The references of the caches that are never written in place, and the reference of
  the Filtered cache.\<close>

definition cache_refs :: "dataset \<Rightarrow> nat set" where
  "cache_refs s =
     {orig_images s} \<union> set_option (orig_images_preprocessed s) \<union> set_option (images_cropped s)"

definition filtered_ref :: "dataset \<Rightarrow> nat set" where
  "filtered_ref s = (case images_filtered s of FArr f \<Rightarrow> {f} | _ \<Rightarrow> {})"

text \<open>Every array attribute refers to an existing array with one frame per defocus value;
  the Current View shares its array with no cache, and Filtered shares its array with no
  other cache.\<close>

definition consistent :: "dataset \<Rightarrow> bool" where
  "consistent s \<longleftrightarrow>
     (\<forall>a \<in> {images_ref s} \<union> cache_refs s \<union> filtered_ref s.
        a < nxt s \<and> length (heap s a) = length (defvals s)) \<and>
     images_ref s \<notin> cache_refs s \<union> filtered_ref s \<and>
     filtered_ref s \<inter> cache_refs s = {}"

text \<open>\<open>s'\<close> is consistent and has the Raw cache of \<open>s\<close>: the same array, with the same
  contents.\<close>

definition keeps_raw :: "dataset \<Rightarrow> dataset \<Rightarrow> bool" where
  "keeps_raw s s' \<longleftrightarrow> consistent s' \<and> orig_images s' = orig_images s \<and> raw s' = raw s"

text \<open>What holds of the flags on every dataset reached from construction: a set
  preprocessed flag comes with a Preprocessed cache, the cropped flag is set exactly when
  there is a Cropped cache, \<^verbatim>\<open>_images_filtered\<close> is \<^verbatim>\<open>None\<close> until the filter stage
  runs, and it is a stack exactly on a cropped dataset from then on.\<close>

definition flags_ok :: "dataset \<Rightarrow> bool" where
  "flags_ok s \<longleftrightarrow>
     (preprocessed s \<longrightarrow> orig_images_preprocessed s \<noteq> None) \<and>
     (cropped s \<longleftrightarrow> images_cropped s \<noteq> None) \<and>
     (\<not> filtered s \<longrightarrow> images_filtered s = FNone) \<and>
     (filtered_ref s \<noteq> {} \<longrightarrow> cropped s) \<and>
     (cropped s \<longrightarrow> images_filtered s \<noteq> FZeroDim)"

text \<open>The shape of every frame of a stack, as the lengths of its rows.\<close>

definition shapes :: "stack \<Rightarrow> nat list list" where
  "shapes st = map (map length) st"

text \<open>On a cropped dataset whose \<^verbatim>\<open>images\<close> were assigned by the stages only, Current
  View and Filtered have the frame shapes of Cropped.\<close>

definition shapes_ok :: "dataset \<Rightarrow> bool" where
  "shapes_ok s \<longleftrightarrow>
     (\<forall>c. cropped_cache s = Some c \<longrightarrow>
        shapes (images s) = shapes c \<and>
        (\<forall>f. filtered_cache s = Some f \<longrightarrow> shapes f = shapes c))"

text \<open>The bandpass filter returns an image of the shape of its argument.\<close>

definition keeps_shape :: "lib \<Rightarrow> bool" where
  "keeps_shape L \<longleftrightarrow>
     (\<forall>im ql qh ft bo. map length (bandpass_filter L im ql qh ft bo) = map length im)"

text \<open>Current View is the cache produced last: Filtered when the filtered flag is set,
  Cropped otherwise.\<close>

definition view_is_latest :: "dataset \<Rightarrow> bool" where
  "view_is_latest s \<longleftrightarrow>
     Some (images s) = (if filtered s then filtered_cache s else cropped_cache s)"

text \<open>What \<^verbatim>\<open>preprocess\<close> makes of a stack: hot-pixel removal when asked for, then the
  median filter when a size is given, frame by frame.\<close>

definition preprocessed_of :: "lib \<Rightarrow> bool \<Rightarrow> int option \<Rightarrow> bool \<Rightarrow> stack \<Rightarrow> stack" where
  "preprocessed_of L hp msize fast st =
     (let st1 = (if hp then map (\<lambda>im. filter_hotpix L im fast) st else st)
      in case msize of None \<Rightarrow> st1 | Some m \<Rightarrow> map (median_filter L m) st1)"

text \<open>Frames written one after the other, without any check.\<close>

definition write_all :: "(nat \<times> image) list \<Rightarrow> stack \<Rightarrow> stack" where
  "write_all ps arr = fold (\<lambda>(j, v) a. a[j := v]) ps arr"

text \<open>The calls that assign \<^verbatim>\<open>images\<close>, and those that assign \<^verbatim>\<open>energy\<close>.\<close>

fun assigns_images :: "call \<Rightarrow> bool" where
  "assigns_images (SetImages ims) = True"
| "assigns_images _ = False"

fun assigns_energy :: "call \<Rightarrow> bool" where
  "assigns_energy (SetEnergy v) = True"
| "assigns_energy _ = False"

section \<open>Example data\<close>

text \<open>Library functions to run the model on: each returns an image of the shape of its
  argument.\<close>

definition example_lib :: lib where
  "example_lib =
     \<lparr>ndi_rotate = (\<lambda>im angle. rev im),
      filter_hotpix = (\<lambda>im fast. map (map (\<lambda>x. min x 100)) im),
      median_filter = (\<lambda>m im. im),
      bandpass_filter = (\<lambda>im ql qh ft bo. map (map (\<lambda>x. x + 1)) im),
      base_select_ROI = (\<lambda>im T. T)\<rparr>"

definition example_filters :: filters where
  "example_filters =
     \<lparr>hotpix = False, median = None, q_lowpass = None, q_highpass = None,
      filter_type = ''butterworth'', butterworth_order = 2\<rparr>"

text \<open>Two frames of two rows and two columns, at defocus -10 and 10.\<close>

definition example_dataset :: dataset where
  "example_dataset =
     projr (init example_filters (Img3 [[[1, 2], [3, 4]], [[5, 6], [7, 8]]])
              (DvSeq [-10, 10]) PyNone)"

text \<open>A session on it: preprocess, set a rotation and a crop box, apply them, filter the
  second frame.\<close>

definition example_calls :: "call list" where
  "example_calls =
     [Preprocess True None True,
      SetTransforms \<lparr>rotation = 90, crop_top = 0, crop_bottom = 1, crop_left = 0, crop_right = 2\<rparr>,
      ApplyTransforms,
      Filter (Some (1 / 10)) None ''butterworth'' 2 (IdxInt 1)]"

text \<open>The example dataset after \<^verbatim>\<open>apply_transforms\<close>, and after a filter of frame 0
  then.\<close>

definition example_cropped :: dataset where
  "example_cropped = run example_lib [ApplyTransforms] example_dataset"

definition example_filtered :: dataset where
  "example_filtered =
     state_of (filter_stage example_lib None None ''butterworth'' 2 (IdxInt 0) example_cropped)"

section \<open>Arrays and references\<close>

declare bit_length.simps [simp del]

lemma bit_length_le: "n < 2 ^ k \<Longrightarrow> bit_length n \<le> k"
proof (induction k arbitrary: n)
  case 0
  then show ?case by (simp add: bit_length.simps)
next
  case (Suc k)
  then have "n div 2 < 2 ^ k" by simp
  from Suc.IH[OF this] show ?case by (subst bit_length.simps) simp
qed

lemma round_to_double_small: "a < 2 ^ 53 \<Longrightarrow> round_to_double a = a"
  using bit_length_le[of a 53] by (simp add: round_to_double_def)

text \<open>An int below \<open>2 ^ 53\<close> in absolute value converts exactly.\<close>

lemma float_of_int_small:
  assumes "\<bar>i\<bar> < 2 ^ 53"
  shows "float_of_int i = Inr (Finite (real_of_int i))"
proof -
  have a: "nat \<bar>i\<bar> < 2 ^ 53" using assms by (simp add: nat_less_iff)
  have "(2 :: nat) ^ 53 \<le> 2 ^ 1024" by (rule power_increasing) simp_all
  with a have "\<not> 2 ^ 1024 \<le> nat \<bar>i\<bar>" by linarith
  moreover have "(if i < 0 then - real (nat \<bar>i\<bar>) else real (nat \<bar>i\<bar>)) = real_of_int i"
    by simp
  ultimately show ?thesis
    using round_to_double_small[OF a] by (simp only: float_of_int_def Let_def if_False)
qed

lemma bit_length_eq: "2 ^ k \<le> n \<Longrightarrow> n < 2 ^ Suc k \<Longrightarrow> bit_length n = Suc k"
proof (induction k arbitrary: n)
  case 0
  then have "n = 1" by simp
  then show ?case by (simp add: bit_length.simps)
next
  case (Suc k)
  then have "2 ^ k \<le> n div 2" "n div 2 < 2 ^ Suc k" by simp_all
  moreover have "(0 :: nat) < 2 ^ Suc k" by simp
  with Suc.prems(1) have "n \<noteq> 0" by linarith
  ultimately show ?case using Suc.IH[of "n div 2"] by (subst bit_length.simps) simp
qed

text \<open>Above \<open>2 ^ 53\<close> the conversion rounds, and from \<open>2 ^ 1024\<close> on it raises.\<close>

lemma float_of_int_rounds: "float_of_int (2 ^ 53 + 1) = Inr (Finite (2 ^ 53))"
proof -
  have "bit_length (2 ^ 53 + 1) = Suc 53"
    by (rule bit_length_eq) simp_all
  then have "round_to_double (2 ^ 53 + 1) = 2 ^ 53"
    by (simp add: round_to_double_def)
  moreover have "nat \<bar>2 ^ 53 + 1 :: int\<bar> = 2 ^ 53 + 1" by simp
  ultimately show ?thesis by (simp add: float_of_int_def)
qed

lemma float_of_int_overflow: "float_of_int (2 ^ 1024) = Inl OverflowError"
proof -
  have "bit_length (2 ^ 1024) = Suc 1024"
    by (rule bit_length_eq) simp_all
  then have "round_to_double (2 ^ 1024) = 2 ^ 1024"
    by (simp add: round_to_double_def)
  moreover have "nat \<bar>2 ^ 1024 :: int\<bar> = 2 ^ 1024" by simp
  ultimately show ?thesis by (simp add: float_of_int_def)
qed

lemmas consistent_defs = consistent_def cache_refs_def filtered_ref_def

lemma fresh_fields [simp]:
  "heap (fresh st s) = (heap s)(nxt s := st)" "nxt (fresh st s) = Suc (nxt s)"
  "images_ref (fresh st s) = images_ref s" "orig_images (fresh st s) = orig_images s"
  "orig_shape (fresh st s) = orig_shape s"
  "orig_images_preprocessed (fresh st s) = orig_images_preprocessed s"
  "images_cropped (fresh st s) = images_cropped s"
  "images_filtered (fresh st s) = images_filtered s"
  "defvals (fresh st s) = defvals s" "beam_energy (fresh st s) = beam_energy s"
  "beam_energy_priv (fresh st s) = beam_energy_priv s"
  "preprocessed (fresh st s) = preprocessed s" "cropped (fresh st s) = cropped s"
  "filtered (fresh st s) = filtered s" "transforms (fresh st s) = transforms s"
  "transforms_modified (fresh st s) = transforms_modified s" "filters (fresh st s) = filters s"
  by (simp_all add: fresh_def)

lemma overwrite_fields [simp]:
  "heap (overwrite a st s) = (heap s)(a := st)" "nxt (overwrite a st s) = nxt s"
  "images_ref (overwrite a st s) = images_ref s" "orig_images (overwrite a st s) = orig_images s"
  "orig_shape (overwrite a st s) = orig_shape s"
  "orig_images_preprocessed (overwrite a st s) = orig_images_preprocessed s"
  "images_cropped (overwrite a st s) = images_cropped s"
  "images_filtered (overwrite a st s) = images_filtered s"
  "defvals (overwrite a st s) = defvals s" "beam_energy (overwrite a st s) = beam_energy s"
  "beam_energy_priv (overwrite a st s) = beam_energy_priv s"
  "preprocessed (overwrite a st s) = preprocessed s" "cropped (overwrite a st s) = cropped s"
  "filtered (overwrite a st s) = filtered s" "transforms (overwrite a st s) = transforms s"
  "transforms_modified (overwrite a st s) = transforms_modified s"
  "filters (overwrite a st s) = filters s"
  by (simp_all add: overwrite_def)

lemma bind_images_fields [simp]:
  "heap (bind_images st s) = (heap s)(nxt s := st)"
  "nxt (bind_images st s) = Suc (nxt s)"
  "images_ref (bind_images st s) = nxt s"
  "orig_images_preprocessed (bind_images st s) = orig_images_preprocessed s"
  "images_cropped (bind_images st s) = images_cropped s"
  "images_filtered (bind_images st s) = images_filtered s"
  "orig_images (bind_images st s) = orig_images s"
  "orig_shape (bind_images st s) = orig_shape s"
  "defvals (bind_images st s) = defvals s"
  "beam_energy (bind_images st s) = beam_energy s"
  "beam_energy_priv (bind_images st s) = beam_energy_priv s"
  "preprocessed (bind_images st s) = preprocessed s"
  "cropped (bind_images st s) = cropped s"
  "filtered (bind_images st s) = filtered s"
  "transforms (bind_images st s) = transforms s"
  "transforms_modified (bind_images st s) = transforms_modified s"
  "filters (bind_images st s) = filters s"
  by (simp_all add: bind_images_def)

lemma bind_preprocessed_fields [simp]:
  "heap (bind_preprocessed st s) = (heap s)(nxt s := st)"
  "nxt (bind_preprocessed st s) = Suc (nxt s)"
  "images_ref (bind_preprocessed st s) = images_ref s"
  "orig_images_preprocessed (bind_preprocessed st s) = Some (nxt s)"
  "images_cropped (bind_preprocessed st s) = images_cropped s"
  "images_filtered (bind_preprocessed st s) = images_filtered s"
  "orig_images (bind_preprocessed st s) = orig_images s"
  "orig_shape (bind_preprocessed st s) = orig_shape s"
  "defvals (bind_preprocessed st s) = defvals s"
  "beam_energy (bind_preprocessed st s) = beam_energy s"
  "beam_energy_priv (bind_preprocessed st s) = beam_energy_priv s"
  "preprocessed (bind_preprocessed st s) = preprocessed s"
  "cropped (bind_preprocessed st s) = cropped s"
  "filtered (bind_preprocessed st s) = filtered s"
  "transforms (bind_preprocessed st s) = transforms s"
  "transforms_modified (bind_preprocessed st s) = transforms_modified s"
  "filters (bind_preprocessed st s) = filters s"
  by (simp_all add: bind_preprocessed_def)

lemma bind_cropped_fields [simp]:
  "heap (bind_cropped st s) = (heap s)(nxt s := st)"
  "nxt (bind_cropped st s) = Suc (nxt s)"
  "images_ref (bind_cropped st s) = images_ref s"
  "orig_images_preprocessed (bind_cropped st s) = orig_images_preprocessed s"
  "images_cropped (bind_cropped st s) = Some (nxt s)"
  "images_filtered (bind_cropped st s) = images_filtered s"
  "orig_images (bind_cropped st s) = orig_images s"
  "orig_shape (bind_cropped st s) = orig_shape s"
  "defvals (bind_cropped st s) = defvals s"
  "beam_energy (bind_cropped st s) = beam_energy s"
  "beam_energy_priv (bind_cropped st s) = beam_energy_priv s"
  "preprocessed (bind_cropped st s) = preprocessed s"
  "cropped (bind_cropped st s) = cropped s"
  "filtered (bind_cropped st s) = filtered s"
  "transforms (bind_cropped st s) = transforms s"
  "transforms_modified (bind_cropped st s) = transforms_modified s"
  "filters (bind_cropped st s) = filters s"
  by (simp_all add: bind_cropped_def)

lemma bind_filtered_fields [simp]:
  "heap (bind_filtered st s) = (heap s)(nxt s := st)"
  "nxt (bind_filtered st s) = Suc (nxt s)"
  "images_ref (bind_filtered st s) = images_ref s"
  "orig_images_preprocessed (bind_filtered st s) = orig_images_preprocessed s"
  "images_cropped (bind_filtered st s) = images_cropped s"
  "images_filtered (bind_filtered st s) = FArr (nxt s)"
  "orig_images (bind_filtered st s) = orig_images s"
  "orig_shape (bind_filtered st s) = orig_shape s"
  "defvals (bind_filtered st s) = defvals s"
  "beam_energy (bind_filtered st s) = beam_energy s"
  "beam_energy_priv (bind_filtered st s) = beam_energy_priv s"
  "preprocessed (bind_filtered st s) = preprocessed s"
  "cropped (bind_filtered st s) = cropped s"
  "filtered (bind_filtered st s) = filtered s"
  "transforms (bind_filtered st s) = transforms s"
  "transforms_modified (bind_filtered st s) = transforms_modified s"
  "filters (bind_filtered st s) = filters s"
  by (simp_all add: bind_filtered_def)

lemmas bind_defs = bind_images_def bind_preprocessed_def bind_cropped_def bind_filtered_def

lemmas view_defs = images_def raw_def preprocessed_cache_def cropped_cache_def filtered_cache_def

lemma view_update [simp]:
  "images (s\<lparr>filtered := b\<rparr>) = images s"
  "images (s\<lparr>preprocessed := b\<rparr>) = images s"
  "images (s\<lparr>cropped := b\<rparr>) = images s"
  "images (s\<lparr>transforms := T\<rparr>) = images s"
  "images (s\<lparr>transforms_modified := b\<rparr>) = images s"
  "images (s\<lparr>filters := F\<rparr>) = images s"
  "images (s\<lparr>beam_energy_priv := e\<rparr>) = images s"
  "images (s\<lparr>defvals := ds\<rparr>) = images s"
  "images (s\<lparr>beam_energy := v\<rparr>) = images s"
  "raw (s\<lparr>filtered := b\<rparr>) = raw s"
  "raw (s\<lparr>preprocessed := b\<rparr>) = raw s"
  "raw (s\<lparr>cropped := b\<rparr>) = raw s"
  "raw (s\<lparr>transforms := T\<rparr>) = raw s"
  "raw (s\<lparr>transforms_modified := b\<rparr>) = raw s"
  "raw (s\<lparr>filters := F\<rparr>) = raw s"
  "raw (s\<lparr>beam_energy_priv := e\<rparr>) = raw s"
  "raw (s\<lparr>defvals := ds\<rparr>) = raw s"
  "raw (s\<lparr>beam_energy := v\<rparr>) = raw s"
  "preprocessed_cache (s\<lparr>filtered := b\<rparr>) = preprocessed_cache s"
  "preprocessed_cache (s\<lparr>preprocessed := b\<rparr>) = preprocessed_cache s"
  "preprocessed_cache (s\<lparr>cropped := b\<rparr>) = preprocessed_cache s"
  "preprocessed_cache (s\<lparr>transforms := T\<rparr>) = preprocessed_cache s"
  "preprocessed_cache (s\<lparr>transforms_modified := b\<rparr>) = preprocessed_cache s"
  "preprocessed_cache (s\<lparr>filters := F\<rparr>) = preprocessed_cache s"
  "preprocessed_cache (s\<lparr>beam_energy_priv := e\<rparr>) = preprocessed_cache s"
  "preprocessed_cache (s\<lparr>defvals := ds\<rparr>) = preprocessed_cache s"
  "preprocessed_cache (s\<lparr>beam_energy := v\<rparr>) = preprocessed_cache s"
  "cropped_cache (s\<lparr>filtered := b\<rparr>) = cropped_cache s"
  "cropped_cache (s\<lparr>preprocessed := b\<rparr>) = cropped_cache s"
  "cropped_cache (s\<lparr>cropped := b\<rparr>) = cropped_cache s"
  "cropped_cache (s\<lparr>transforms := T\<rparr>) = cropped_cache s"
  "cropped_cache (s\<lparr>transforms_modified := b\<rparr>) = cropped_cache s"
  "cropped_cache (s\<lparr>filters := F\<rparr>) = cropped_cache s"
  "cropped_cache (s\<lparr>beam_energy_priv := e\<rparr>) = cropped_cache s"
  "cropped_cache (s\<lparr>defvals := ds\<rparr>) = cropped_cache s"
  "cropped_cache (s\<lparr>beam_energy := v\<rparr>) = cropped_cache s"
  "filtered_cache (s\<lparr>filtered := b\<rparr>) = filtered_cache s"
  "filtered_cache (s\<lparr>preprocessed := b\<rparr>) = filtered_cache s"
  "filtered_cache (s\<lparr>cropped := b\<rparr>) = filtered_cache s"
  "filtered_cache (s\<lparr>transforms := T\<rparr>) = filtered_cache s"
  "filtered_cache (s\<lparr>transforms_modified := b\<rparr>) = filtered_cache s"
  "filtered_cache (s\<lparr>filters := F\<rparr>) = filtered_cache s"
  "filtered_cache (s\<lparr>beam_energy_priv := e\<rparr>) = filtered_cache s"
  "filtered_cache (s\<lparr>defvals := ds\<rparr>) = filtered_cache s"
  "filtered_cache (s\<lparr>beam_energy := v\<rparr>) = filtered_cache s"
  by (simp_all add: view_defs split: fcache.splits)

lemma pred_update [simp]:
  "flags_ok (s\<lparr>transforms := T\<rparr>) = flags_ok s"
  "flags_ok (s\<lparr>transforms_modified := b\<rparr>) = flags_ok s"
  "flags_ok (s\<lparr>filters := F\<rparr>) = flags_ok s"
  "flags_ok (s\<lparr>beam_energy_priv := e\<rparr>) = flags_ok s"
  "flags_ok (s\<lparr>beam_energy := v\<rparr>) = flags_ok s"
  "shapes_ok (s\<lparr>transforms := T\<rparr>) = shapes_ok s"
  "shapes_ok (s\<lparr>transforms_modified := b\<rparr>) = shapes_ok s"
  "shapes_ok (s\<lparr>filters := F\<rparr>) = shapes_ok s"
  "shapes_ok (s\<lparr>beam_energy_priv := e\<rparr>) = shapes_ok s"
  "shapes_ok (s\<lparr>beam_energy := v\<rparr>) = shapes_ok s"
  "view_is_latest (s\<lparr>transforms := T\<rparr>) = view_is_latest s"
  "view_is_latest (s\<lparr>transforms_modified := b\<rparr>) = view_is_latest s"
  "view_is_latest (s\<lparr>filters := F\<rparr>) = view_is_latest s"
  "view_is_latest (s\<lparr>beam_energy_priv := e\<rparr>) = view_is_latest s"
  "view_is_latest (s\<lparr>beam_energy := v\<rparr>) = view_is_latest s"
  by (simp_all add: flags_ok_def shapes_ok_def view_is_latest_def filtered_ref_def)

lemma consistent_bind_images:
  "consistent s \<Longrightarrow> length st = length (defvals s) \<Longrightarrow> consistent (bind_images st s)"
  by (auto simp: consistent_defs bind_defs split: fcache.splits)

lemma consistent_bind_preprocessed:
  "consistent s \<Longrightarrow> length st = length (defvals s) \<Longrightarrow> consistent (bind_preprocessed st s)"
  by (auto simp: consistent_defs bind_defs split: fcache.splits)

lemma consistent_bind_cropped:
  "consistent s \<Longrightarrow> length st = length (defvals s) \<Longrightarrow> consistent (bind_cropped st s)"
  by (auto simp: consistent_defs bind_defs split: fcache.splits)

lemma consistent_bind_filtered:
  "consistent s \<Longrightarrow> length st = length (defvals s) \<Longrightarrow> consistent (bind_filtered st s)"
  by (auto simp: consistent_defs bind_defs split: fcache.splits)

lemma consistent_overwrite_images:
  "consistent s \<Longrightarrow> length st = length (defvals s) \<Longrightarrow>
   consistent (overwrite (images_ref s) st s)"
  by (auto simp: consistent_defs split: fcache.splits)

lemma consistent_overwrite_filtered:
  "consistent s \<Longrightarrow> images_filtered s = FArr f \<Longrightarrow> length st = length (defvals s) \<Longrightarrow>
   consistent (overwrite f st s)"
  by (auto simp: consistent_defs split: fcache.splits)

lemma consistent_update [simp]:
  "consistent (s\<lparr>filtered := b\<rparr>) = consistent s"
  "consistent (s\<lparr>preprocessed := b\<rparr>) = consistent s"
  "consistent (s\<lparr>cropped := b\<rparr>) = consistent s"
  "consistent (s\<lparr>transforms := T\<rparr>) = consistent s"
  "consistent (s\<lparr>transforms_modified := b\<rparr>) = consistent s"
  "consistent (s\<lparr>filters := F\<rparr>) = consistent s"
  "consistent (s\<lparr>beam_energy_priv := e\<rparr>) = consistent s"
  by (simp_all add: consistent_defs)

lemma consistent_zero_dim:
  "consistent s \<Longrightarrow> consistent (s\<lparr>images_filtered := FZeroDim\<rparr>)"
  by (auto simp: consistent_defs)

lemma consistent_defvals:
  "consistent s \<Longrightarrow> length ds = length (defvals s) \<Longrightarrow> consistent (s\<lparr>defvals := ds\<rparr>)"
  by (auto simp: consistent_defs)

lemma consistent_lengths:
  assumes "consistent s"
  shows "length (images s) = length (defvals s)" "length (raw s) = length (defvals s)"
    "orig_images_preprocessed s = Some a \<Longrightarrow> length (heap s a) = length (defvals s)"
    "images_cropped s = Some c \<Longrightarrow> length (heap s c) = length (defvals s)"
    "images_filtered s = FArr f \<Longrightarrow> length (heap s f) = length (defvals s)"
  using assms by (auto simp: consistent_defs images_def raw_def)

lemma keeps_raw_refl: "consistent s \<Longrightarrow> keeps_raw s s"
  by (simp add: keeps_raw_def)

lemma keeps_raw_trans: "keeps_raw s t \<Longrightarrow> keeps_raw t u \<Longrightarrow> keeps_raw s u"
  by (simp add: keeps_raw_def)

lemma keeps_raw_bind:
  assumes "consistent s" "length st = length (defvals s)"
  shows "keeps_raw s (bind_images st s)" "keeps_raw s (bind_preprocessed st s)"
    "keeps_raw s (bind_cropped st s)" "keeps_raw s (bind_filtered st s)"
  using assms consistent_bind_images[OF assms] consistent_bind_preprocessed[OF assms]
    consistent_bind_cropped[OF assms] consistent_bind_filtered[OF assms]
  by (auto simp: keeps_raw_def raw_def bind_defs consistent_defs)

lemma keeps_raw_overwrite_images:
  "consistent s \<Longrightarrow> length st = length (defvals s) \<Longrightarrow> keeps_raw s (overwrite (images_ref s) st s)"
  using consistent_overwrite_images[of s st]
  by (auto simp: keeps_raw_def raw_def consistent_defs)

lemma keeps_raw_overwrite_filtered:
  "consistent s \<Longrightarrow> images_filtered s = FArr f \<Longrightarrow> length st = length (defvals s) \<Longrightarrow>
   keeps_raw s (overwrite f st s)"
  using consistent_overwrite_filtered[of s f st]
  by (auto simp: keeps_raw_def raw_def consistent_defs)

lemma keeps_raw_update [simp]:
  "keeps_raw s (t\<lparr>filtered := b\<rparr>) = keeps_raw s t"
  "keeps_raw s (t\<lparr>preprocessed := b\<rparr>) = keeps_raw s t"
  "keeps_raw s (t\<lparr>cropped := b\<rparr>) = keeps_raw s t"
  "keeps_raw s (t\<lparr>transforms := T\<rparr>) = keeps_raw s t"
  "keeps_raw s (t\<lparr>transforms_modified := b\<rparr>) = keeps_raw s t"
  "keeps_raw s (t\<lparr>filters := F\<rparr>) = keeps_raw s t"
  "keeps_raw s (t\<lparr>beam_energy_priv := e\<rparr>) = keeps_raw s t"
  by (simp_all add: keeps_raw_def raw_def)

lemma keeps_raw_and_then:
  assumes "keeps_raw s (state_of r)"
    and "\<And>t. r = Done t \<Longrightarrow> keeps_raw s (state_of (f t))"
  shows "keeps_raw s (state_of (and_then r f))"
  using assms by (cases r) simp_all

lemma keeps_raw_images_setter:
  "consistent s \<Longrightarrow> keeps_raw s (state_of (images_setter ims s))"
  by (simp add: images_setter_def keeps_raw_refl keeps_raw_bind)

lemma length_write_frames: "write_frames arr ps = Some arr' \<Longrightarrow> length arr' = length arr"
  by (induction arr ps rule: write_frames.induct) (auto split: option.splits)

lemma length_put_frames: "put_frames arr ixs vals = Inr arr' \<Longrightarrow> length arr' = length arr"
  by (auto simp: put_frames_def dest: length_write_frames split: option.splits)

lemma length_transformed [simp]: "length (transformed L T st) = length st"
  by (simp add: transformed_def)

lemma consistentD:
  assumes "consistent s"
  shows "images_ref s < nxt s" "orig_images s < nxt s" "images_ref s \<noteq> orig_images s"
    "orig_images_preprocessed s = Some a \<Longrightarrow> a < nxt s \<and> a \<noteq> images_ref s"
    "images_cropped s = Some c \<Longrightarrow> c < nxt s \<and> c \<noteq> images_ref s"
    "images_filtered s = FArr f \<Longrightarrow> f < nxt s \<and> f \<noteq> images_ref s \<and> f \<noteq> orig_images s
       \<and> orig_images_preprocessed s \<noteq> Some f \<and> images_cropped s \<noteq> Some f"
  using assms by (auto simp: consistent_defs)

lemma apply_transforms_result:
  fixes L :: lib and s :: dataset
  assumes "consistent s" and base: "transform_base s = Some b"
  defines "ims \<equiv> transformed L (transforms s) (heap s b)"
  defines "ims' \<equiv> (if filtered s then map (recorded_bandpass L (filters s)) ims else ims)"
  defines "r \<equiv> state_of (apply_transforms L s)"
  shows "apply_transforms L s = Done r" and "keeps_raw s r"
    and "cropped_cache r = Some ims" and "images r = ims'"
    and "filtered s \<Longrightarrow> filtered_cache r = Some ims'"
    and "\<not> filtered s \<Longrightarrow> images_filtered r = images_filtered s"
    and "preprocessed_cache r = preprocessed_cache s"
    and "orig_images_preprocessed r = orig_images_preprocessed s"
    and "cropped r" and "filtered r = filtered s" and "preprocessed r = preprocessed s"
    and "filters r = filters s" and "transforms r = transforms s" and "defvals r = defvals s"
    and "orig_shape r = orig_shape s" and "beam_energy_priv r = beam_energy_priv s"
proof -
  define s1 where "s1 = bind_cropped ims s"
  define s2 where "s2 = (if filtered s then bind_filtered ims' s1 else s1)"
  define s' where "s' = (bind_images ims' s2)\<lparr>transforms_modified := False, cropped := True\<rparr>"
  note D = consistentD[OF assms(1)]
  have len: "length (heap s b) = length (defvals s)"
    using base consistent_lengths[OF assms(1)]
    by (auto simp: transform_base_def raw_def split: if_splits)
  have k1: "keeps_raw s s1"
    unfolding s1_def using assms(1) len by (simp add: keeps_raw_bind ims_def)
  have c1: "consistent s1"
    using k1 by (simp add: keeps_raw_def)
  have len': "length ims' = length (defvals s1)"
    using len by (simp add: ims'_def ims_def s1_def)
  have k12: "keeps_raw s1 s2"
    unfolding s2_def using c1 len' by (simp add: keeps_raw_bind keeps_raw_refl)
  have d2: "defvals s2 = defvals s1"
    by (simp add: s2_def)
  have c2: "consistent s2"
    using k12 by (simp add: keeps_raw_def)
  have k23: "keeps_raw s2 (bind_images ims' s2)"
    using c2 len' d2 by (simp add: keeps_raw_bind)
  have eq: "apply_transforms L s = Done s'"
    using base len
    by (simp add: apply_transforms_def Let_def images_setter_def
        s'_def s2_def s1_def ims'_def ims_def)
  then have r: "r = s'" by (simp add: r_def)
  show "apply_transforms L s = Done r" using eq r by simp
  show "keeps_raw s r"
    unfolding r s'_def using keeps_raw_trans[OF keeps_raw_trans[OF k1 k12] k23] by simp
  show "cropped_cache r = Some ims"
    by (simp add: r cropped_cache_def s'_def s2_def s1_def)
  show "images r = ims'"
    by (simp add: r images_def s'_def)
  show "filtered s \<Longrightarrow> filtered_cache r = Some ims'"
    by (simp add: r filtered_cache_def s'_def s2_def s1_def)
  show "\<not> filtered s \<Longrightarrow> images_filtered r = images_filtered s"
    by (simp add: r s'_def s2_def s1_def)
  show "preprocessed_cache r = preprocessed_cache s"
    using D(4) by (cases "orig_images_preprocessed s")
      (auto simp add: r preprocessed_cache_def s'_def s2_def s1_def)
  show "orig_images_preprocessed r = orig_images_preprocessed s"
    "cropped r" "filtered r = filtered s" "preprocessed r = preprocessed s"
    "filters r = filters s" "transforms r = transforms s" "defvals r = defvals s"
    "orig_shape r = orig_shape s" "beam_energy_priv r = beam_energy_priv s"
    by (simp_all add: r s'_def s2_def s1_def)
qed

lemma flags_ok_base: "flags_ok s \<Longrightarrow> \<exists>b. transform_base s = Some b"
  by (auto simp: flags_ok_def transform_base_def)

lemma keeps_raw_apply_transforms:
  assumes "consistent s"
  shows "keeps_raw s (state_of (apply_transforms L s))"
proof (cases "transform_base s")
  case None
  then show ?thesis using assms by (simp add: apply_transforms_def keeps_raw_refl)
next
  case (Some b)
  from apply_transforms_result(2)[OF assms Some] show ?thesis .
qed

lemma view_is_latest_apply_transforms:
  assumes "consistent s" "flags_ok s"
  shows "view_is_latest (state_of (apply_transforms L s))"
proof -
  from flags_ok_base[OF assms(2)] obtain b where b: "transform_base s = Some b" ..
  note R = apply_transforms_result[OF assms(1) b, of L]
  show ?thesis
    using R(3,4,5,10) by (simp add: view_is_latest_def)
qed

lemma done_apply_transforms:
  assumes "consistent s" "flags_ok s"
  shows "apply_transforms L s = Done (state_of (apply_transforms L s))"
proof -
  from flags_ok_base[OF assms(2)] obtain b where b: "transform_base s = Some b" ..
  from apply_transforms_result(1)[OF assms(1) b] show ?thesis .
qed

lemma flags_ok_apply_transforms:
  assumes "consistent s" "flags_ok s"
  shows "flags_ok (state_of (apply_transforms L s))"
proof -
  from flags_ok_base[OF assms(2)] obtain b where b: "transform_base s = Some b" ..
  note R = apply_transforms_result[OF assms(1) b, of L]
  have "images_cropped (state_of (apply_transforms L s)) \<noteq> None"
    using R(3) by (auto simp: cropped_cache_def)
  moreover have "images_filtered (state_of (apply_transforms L s)) \<noteq> FZeroDim"
    using assms(2) R(5,6) by (cases "filtered s") (auto simp: flags_ok_def filtered_cache_def)
  ultimately show ?thesis
    using assms(2) R(6,8,9,10,11) by (auto simp: flags_ok_def)
qed

lemma shapes_ok_apply_transforms:
  assumes "consistent s" "flags_ok s" "keeps_shape L"
  shows "shapes_ok (state_of (apply_transforms L s))"
proof -
  from flags_ok_base[OF assms(2)] obtain b where b: "transform_base s = Some b" ..
  define ims where "ims = transformed L (transforms s) (heap s b)"
  define ims' where "ims' = (if filtered s then map (recorded_bandpass L (filters s)) ims else ims)"
  define r where "r = state_of (apply_transforms L s)"
  note R = apply_transforms_result[OF assms(1) b, of L]
  have cc: "cropped_cache r = Some ims"
    using R(3) by (simp add: r_def ims_def)
  have im: "images r = ims'"
    using R(4) by (simp add: r_def ims_def ims'_def)
  have sh: "shapes ims' = shapes ims"
    using assms(3) by (simp add: ims'_def shapes_def keeps_shape_def recorded_bandpass_def)
  have "shapes f = shapes ims" if f: "filtered_cache r = Some f" for f
  proof (cases "filtered s")
    case True
    with R(5) f have "f = ims'" by (simp add: r_def ims_def ims'_def)
    with sh show ?thesis by simp
  next
    case False
    with assms(2) R(6) have "images_filtered r = FNone" by (simp add: flags_ok_def r_def)
    with f show ?thesis by (simp add: filtered_cache_def)
  qed
  then show ?thesis
    using cc im sh by (simp add: r_def[symmetric] shapes_ok_def)
qed

lemma preprocess_images_result:
  fixes L :: lib and s :: dataset and hp fast :: bool and m :: "int option"
  assumes "consistent s"
  defines "r \<equiv> state_of (preprocess_images L hp m fast s)"
  shows "preprocess_images L hp m fast s = Done r" and "keeps_raw s r"
    and "\<exists>b. transform_base r = Some b"
    and "preprocessed_cache r = Some (preprocessed_of L hp m fast (raw s))"
    and "preprocessed r" and "orig_images_preprocessed r \<noteq> None"
    and "cropped r = cropped s" and "filtered r = filtered s"
    and "images_cropped r = images_cropped s" and "images_filtered r = images_filtered s"
    and "filters r = filters s" and "transforms r = transforms s"
    and "defvals r = defvals s" and "beam_energy_priv r = beam_energy_priv s"
    and "orig_shape r = orig_shape s"
proof -
  define s1 where "s1 = bind_images (raw s) s"
  define s2 where "s2 = (if hp then overwrite (images_ref s1)
                       (map (\<lambda>im. filter_hotpix L im fast) (images s1)) s1 else s1)"
  define s3 where "s3 = (case m of None \<Rightarrow> s2
                          | Some k \<Rightarrow> bind_images (map (median_filter L k) (images s2)) s2)"
  define s5 where "s5 = bind_preprocessed (images s3) (s3\<lparr>preprocessed := True\<rparr>)"
  note len = consistent_lengths[OF assms(1)]
  have k1: "keeps_raw s s1"
    unfolding s1_def using assms(1) len by (simp add: keeps_raw_bind)
  have c1: "consistent s1" using k1 by (simp add: keeps_raw_def)
  have i1: "images s1 = raw s" by (simp add: s1_def images_def)
  have d1: "defvals s1 = defvals s" by (simp add: s1_def)
  have k12: "keeps_raw s1 s2"
    unfolding s2_def using c1 i1 d1 len
    by (simp add: keeps_raw_refl keeps_raw_overwrite_images)
  have c2: "consistent s2" using k12 by (simp add: keeps_raw_def)
  have i2: "images s2 = (if hp then map (\<lambda>im. filter_hotpix L im fast) (raw s) else raw s)"
    using i1 by (simp add: s2_def images_def)
  have d2: "defvals s2 = defvals s" by (simp add: s2_def d1)
  have k23: "keeps_raw s2 s3"
    unfolding s3_def using c2 i2 d2 len
    by (simp add: keeps_raw_refl keeps_raw_bind split: option.splits)
  have c3: "consistent s3" using k23 by (simp add: keeps_raw_def)
  have i3: "images s3 = preprocessed_of L hp m fast (raw s)"
    using i2 by (simp add: s3_def images_def preprocessed_of_def split: option.splits)
  have l3: "length (images s3) = length (defvals s3)"
    using consistent_lengths(1)[OF c3] .
  have k35: "keeps_raw s3 s5"
    unfolding s5_def using keeps_raw_bind(2)[of "s3\<lparr>preprocessed := True\<rparr>" "images s3"] c3 l3
    by (simp add: keeps_raw_def raw_def)
  have a: "images_setter (raw s) s = Done s1"
    using len by (simp add: images_setter_def s1_def)
  have b: "(case m of None \<Rightarrow> Done s2
           | Some k \<Rightarrow> images_setter (map (median_filter L k) (images s2)) s2) = Done s3"
    using consistent_lengths(1)[OF c2]
    by (simp add: s3_def images_setter_def split: option.splits)
  have eq: "preprocess_images L hp m fast s = Done s5"
    unfolding preprocess_images_def a and_then.simps Let_def s2_def[symmetric] b
    by (simp add: s5_def images_def)
  then have r: "r = s5" by (simp add: r_def)
  show "preprocess_images L hp m fast s = Done r" using eq r by simp
  show "keeps_raw s r"
    unfolding r using keeps_raw_trans[OF keeps_raw_trans[OF keeps_raw_trans[OF k1 k12] k23] k35] .
  show "\<exists>b. transform_base r = Some b"
    by (simp add: r transform_base_def s5_def)
  show "preprocessed_cache r = Some (preprocessed_of L hp m fast (raw s))"
    using i3 by (simp add: r preprocessed_cache_def s5_def images_def)
  show "preprocessed r" "orig_images_preprocessed r \<noteq> None"
    "cropped r = cropped s" "filtered r = filtered s"
    "images_cropped r = images_cropped s" "images_filtered r = images_filtered s"
    "filters r = filters s" "transforms r = transforms s"
    "defvals r = defvals s" "beam_energy_priv r = beam_energy_priv s"
    "orig_shape r = orig_shape s"
    by (simp_all add: r s5_def s3_def s2_def s1_def split: option.splits)
qed

lemma preprocess_result:
  fixes L :: lib and s :: dataset and hp fast :: bool and m :: "int option"
  assumes "consistent s"
  defines "r \<equiv> state_of (preprocess L hp m fast s)"
  shows "preprocess L hp m fast s = Done r" and "keeps_raw s r"
    and "preprocessed_cache r = Some (preprocessed_of L hp m fast (raw s))"
    and "view_is_latest r"
    and "beam_energy_priv r = beam_energy_priv s"
    and "flags_ok s \<Longrightarrow> flags_ok r"
    and "flags_ok s \<Longrightarrow> keeps_shape L \<Longrightarrow> shapes_ok r"
proof -
  define s5 where "s5 = state_of (preprocess_images L hp m fast s)"
  define s6 where "s6 = state_of (apply_transforms L s5)"
  note P = preprocess_images_result[OF assms(1), of L hp m fast, folded s5_def]
  have c5: "consistent s5" using P(2) by (simp add: keeps_raw_def)
  from P(3) obtain b where b: "transform_base s5 = Some b" ..
  note A = apply_transforms_result[OF c5 b, of L, folded s6_def]
  have eq: "preprocess L hp m fast s =
      Done (s6\<lparr>filters := (filters s6)\<lparr>hotpix := hp, median := m\<rparr>\<rparr>)"
    by (simp add: preprocess_def P(1) A(1))
  then have r: "r = s6\<lparr>filters := (filters s6)\<lparr>hotpix := hp, median := m\<rparr>\<rparr>"
    by (simp add: r_def)
  show "preprocess L hp m fast s = Done r" using eq r by simp
  show "keeps_raw s r"
    unfolding r using keeps_raw_trans[OF P(2) A(2)] by simp
  show "preprocessed_cache r = Some (preprocessed_of L hp m fast (raw s))"
    using A(7) P(4) by (simp add: r preprocessed_cache_def)
  have v6: "view_is_latest s6"
    using A(3,4,5,10) by (simp add: view_is_latest_def)
  then show "view_is_latest r"
    by (simp add: r)
  show "beam_energy_priv r = beam_energy_priv s"
    using A(16) P(14) by (simp add: r)
  have f5: "flags_ok s5" if "flags_ok s"
    using that P(5-10) by (auto simp: flags_ok_def filtered_ref_def)
  show "flags_ok r" if "flags_ok s"
    using flags_ok_apply_transforms[OF c5 f5[OF that], of L]
    by (simp add: r s6_def)
  show "shapes_ok r" if "flags_ok s" "keeps_shape L"
    using shapes_ok_apply_transforms[OF c5 f5[OF that(1)] that(2)]
    by (simp add: r s6_def)
qed

lemma reset_transforms_result:
  fixes L :: lib and s :: dataset
  assumes "consistent s"
  defines "r \<equiv> state_of (reset_transforms L s)"
  shows "keeps_raw s r" and "beam_energy_priv r = beam_energy_priv s"
    and "flags_ok s \<Longrightarrow> reset_transforms L s = Done r"
    and "flags_ok s \<Longrightarrow> view_is_latest r"
    and "flags_ok s \<Longrightarrow> flags_ok r"
    and "flags_ok s \<Longrightarrow> keeps_shape L \<Longrightarrow> shapes_ok r"
proof -
  define t where "t = s\<lparr>transforms := default_transforms (orig_shape s)\<rparr>"
  have ct: "consistent t" using assms(1) by (simp add: t_def)
  have r: "r = state_of (apply_transforms L t)"
    by (simp add: r_def reset_transforms_def t_def)
  have kt: "keeps_raw s t" using assms(1) by (simp add: t_def keeps_raw_refl)
  have ft: "flags_ok t" if "flags_ok s"
    using that by (simp add: t_def)
  show "keeps_raw s r"
    unfolding r using keeps_raw_trans[OF kt keeps_raw_apply_transforms[OF ct]] .
  show "beam_energy_priv r = beam_energy_priv s"
  proof (cases "transform_base t")
    case None
    then show ?thesis by (simp add: r apply_transforms_def t_def)
  next
    case (Some b)
    from apply_transforms_result(16)[OF ct Some, of L] show ?thesis by (simp add: r t_def)
  qed
  show "reset_transforms L s = Done r" if "flags_ok s"
    using done_apply_transforms[OF ct ft[OF that], of L]
    by (simp add: r reset_transforms_def t_def)
  show "view_is_latest r" if "flags_ok s"
    unfolding r using view_is_latest_apply_transforms[OF ct ft[OF that]] .
  show "flags_ok r" if "flags_ok s"
    unfolding r using flags_ok_apply_transforms[OF ct ft[OF that]] .
  show "shapes_ok r" if "flags_ok s" "keeps_shape L"
    unfolding r using shapes_ok_apply_transforms[OF ct ft[OF that(1)] that(2)] .
qed

subsection \<open>Writing frames\<close>

lemma write_all_Cons [simp]: "write_all ((j, v) # ps) arr = write_all ps (arr[j := v])"
  by (simp add: write_all_def)

lemma write_all_Nil [simp]: "write_all [] arr = arr"
  by (simp add: write_all_def)

lemma length_write_all [simp]: "length (write_all ps arr) = length arr"
  by (induction ps arbitrary: arr) auto

lemma write_all_other: "j \<notin> fst ` set ps \<Longrightarrow> write_all ps arr ! j = arr ! j"
  by (induction ps arbitrary: arr) auto

lemma write_all_same:
  "j \<in> fst ` set ps \<Longrightarrow> j < length a \<Longrightarrow> j < length b \<Longrightarrow>
   write_all ps a ! j = write_all ps b ! j"
proof (induction ps arbitrary: a b)
  case Nil
  then show ?case by simp
next
  case (Cons p ps)
  obtain i v where p: "p = (i, v)" by (cases p)
  show ?case
  proof (cases "j \<in> fst ` set ps")
    case True
    then show ?thesis using Cons.IH[of "a[i := v]" "b[i := v]"] Cons.prems by (simp add: p)
  next
    case False
    then have "i = j" using Cons.prems(1) by (simp add: p)
    then show ?thesis using False Cons.prems by (simp add: p write_all_other)
  qed
qed

lemma write_all_distinct:
  "distinct (map fst ps) \<Longrightarrow> (j, v) \<in> set ps \<Longrightarrow> j < length arr \<Longrightarrow>
   write_all ps arr ! j = v"
proof (induction ps arbitrary: arr)
  case Nil
  then show ?case by simp
next
  case (Cons p ps)
  obtain i w where p: "p = (i, w)" by (cases p)
  show ?case
  proof (cases "(j, v) \<in> set ps")
    case True
    then show ?thesis using Cons.IH[of "arr[i := w]"] Cons.prems by (simp add: p)
  next
    case False
    then have "i = j" "w = v" using Cons.prems(2) by (simp_all add: p)
    moreover have "j \<notin> fst ` set ps" using Cons.prems(1) \<open>i = j\<close> by (simp add: p)
    ultimately show ?thesis using Cons.prems(3) by (simp add: p write_all_other)
  qed
qed

lemma write_all_full:
  assumes "length vals = length arr"
  shows "write_all (zip [0..<length arr] vals) arr = vals"
proof (rule nth_equalityI)
  show "length (write_all (zip [0..<length arr] vals) arr) = length vals"
    using assms by simp
next
  fix i assume "i < length (write_all (zip [0..<length arr] vals) arr)"
  then have i: "i < length arr" by simp
  have "(i, vals ! i) \<in> set (zip [0..<length arr] vals)"
    using i assms by (auto simp: set_zip intro!: exI[of _ i])
  then show "write_all (zip [0..<length arr] vals) arr ! i = vals ! i"
    using i assms by (intro write_all_distinct) simp_all
qed

lemma write_frames_exact:
  assumes "shapes arr = sh" and "\<forall>(j, v) \<in> set ps. j < length sh \<and> map length v = sh ! j"
  shows "write_frames arr ps = Some (write_all ps arr) \<and> shapes (write_all ps arr) = sh"
  using assms
proof (induction ps arbitrary: arr)
  case Nil
  then show ?case by simp
next
  case (Cons p ps)
  obtain j v where p: "p = (j, v)" by (cases p)
  have j: "j < length arr" and v: "map length v = map length (arr ! j)"
    using Cons.prems by (auto simp: p shapes_def)
  have b: "broadcast_to (arr ! j) v = Some v"
    using v by (simp add: broadcast_to_def)
  have "shapes (arr[j := v]) = sh"
    using Cons.prems(1)[symmetric] j v by (simp add: shapes_def map_update list_update_same_conv)
  then show ?case
    using Cons.IH[of "arr[j := v]"] Cons.prems(2) b by (simp add: p)
qed

lemma write_frames_other:
  "write_frames arr ps = Some arr' \<Longrightarrow> j \<notin> fst ` set ps \<Longrightarrow> arr' ! j = arr ! j"
  by (induction arr ps rule: write_frames.induct) (auto split: option.splits)

lemma those_map_Some:
  "(\<And>x. x \<in> set xs \<Longrightarrow> f x = Some (g x)) \<Longrightarrow> those (map f xs) = Some (map g xs)"
  by (induction xs) auto

lemma those_map_D:
  "those (map f xs) = Some ys \<Longrightarrow> ys = map (the \<circ> f) xs \<and> (\<forall>x\<in>set xs. f x \<noteq> None)"
  by (induction xs arbitrary: ys) (auto split: option.splits)

lemma norm_index_bound: "norm_index n i = Some j \<Longrightarrow> j < n"
  by (auto simp: norm_index_def split: if_splits)

lemma norm_indices_upt: "norm_indices n (map int [0..<n]) = Some [0..<n]"
proof -
  have "those (map (norm_index n \<circ> int) [0..<n]) = Some (map id [0..<n])"
    by (rule those_map_Some) (simp add: norm_index_def)
  then show ?thesis by (simp add: norm_indices_def)
qed

lemma norm_indices_D:
  assumes "norm_indices n ixs = Some js"
  shows "length js = length ixs" and "\<forall>j\<in>set js. j < n"
    and "\<forall>i\<in>set ixs. \<exists>j\<in>set js. norm_index n i = Some j"
proof -
  from those_map_D[OF assms[unfolded norm_indices_def]]
  have js: "js = map (the \<circ> norm_index n) ixs" and ok: "\<forall>x\<in>set ixs. norm_index n x \<noteq> None"
    by auto
  show "length js = length ixs" by (simp add: js)
  show "\<forall>i\<in>set ixs. \<exists>j\<in>set js. norm_index n i = Some j"
    using ok by (auto simp: js)
  show "\<forall>j\<in>set js. j < n"
  proof
    fix j assume "j \<in> set js"
    then obtain i where i: "i \<in> set ixs" "j = the (norm_index n i)"
      by (auto simp: js)
    with ok obtain y where "norm_index n i = Some y" by auto
    then show "j < n" using i(2) norm_index_bound[of n i y] by simp
  qed
qed

subsection \<open>The filter stage\<close>

lemma allocate_filtered_fields [simp]:
  "images_ref (allocate_filtered s) = images_ref s"
  "orig_images (allocate_filtered s) = orig_images s"
  "orig_shape (allocate_filtered s) = orig_shape s"
  "orig_images_preprocessed (allocate_filtered s) = orig_images_preprocessed s"
  "images_cropped (allocate_filtered s) = images_cropped s"
  "defvals (allocate_filtered s) = defvals s"
  "beam_energy (allocate_filtered s) = beam_energy s"
  "beam_energy_priv (allocate_filtered s) = beam_energy_priv s"
  "preprocessed (allocate_filtered s) = preprocessed s"
  "cropped (allocate_filtered s) = cropped s"
  "filtered (allocate_filtered s) = filtered s"
  "transforms (allocate_filtered s) = transforms s"
  "transforms_modified (allocate_filtered s) = transforms_modified s"
  "filters (allocate_filtered s) = filters s"
  by (simp_all add: allocate_filtered_def split: fcache.splits option.splits)

lemma commit_filtered_fields [simp]:
  "images_ref (state_of (commit_filtered ixs vals s)) = images_ref s"
  "orig_images (state_of (commit_filtered ixs vals s)) = orig_images s"
  "orig_shape (state_of (commit_filtered ixs vals s)) = orig_shape s"
  "orig_images_preprocessed (state_of (commit_filtered ixs vals s)) = orig_images_preprocessed s"
  "images_cropped (state_of (commit_filtered ixs vals s)) = images_cropped s"
  "defvals (state_of (commit_filtered ixs vals s)) = defvals s"
  "beam_energy (state_of (commit_filtered ixs vals s)) = beam_energy s"
  "beam_energy_priv (state_of (commit_filtered ixs vals s)) = beam_energy_priv s"
  "preprocessed (state_of (commit_filtered ixs vals s)) = preprocessed s"
  "cropped (state_of (commit_filtered ixs vals s)) = cropped s"
  "filtered (state_of (commit_filtered ixs vals s)) = filtered s"
  "transforms (state_of (commit_filtered ixs vals s)) = transforms s"
  "transforms_modified (state_of (commit_filtered ixs vals s)) = transforms_modified s"
  "filters (state_of (commit_filtered ixs vals s)) = filters s"
  "images_filtered (state_of (commit_filtered ixs vals s)) = images_filtered s"
  "nxt (state_of (commit_filtered ixs vals s)) = nxt s"
  by (simp_all add: commit_filtered_def Let_def split: fcache.splits sum.splits)

lemma keeps_raw_zero_dim:
  "consistent s \<Longrightarrow> keeps_raw s (s\<lparr>images_filtered := FZeroDim\<rparr>)"
  by (simp add: keeps_raw_def consistent_zero_dim raw_def)

lemma length_zeros_like [simp]: "length (zeros_like st) = length st"
  by (simp add: zeros_like_def)

lemma shapes_zeros_like [simp]: "shapes (zeros_like st) = shapes st"
  by (simp add: zeros_like_def shapes_def)

lemma keeps_raw_allocate:
  assumes "consistent s"
  shows "keeps_raw s (allocate_filtered s)"
proof (cases "images_filtered s = FNone")
  case False
  then show ?thesis
    using assms by (simp add: allocate_filtered_def keeps_raw_refl split: fcache.splits)
next
  case True
  show ?thesis
  proof (cases "images_cropped s")
    case None
    then show ?thesis
      using assms True by (simp add: allocate_filtered_def keeps_raw_zero_dim)
  next
    case (Some c)
    then show ?thesis
      using assms True consistent_lengths(4)[OF assms Some]
      by (simp add: allocate_filtered_def keeps_raw_bind)
  qed
qed

lemma allocate_filtered_views:
  assumes "consistent s"
  shows "images (allocate_filtered s) = images s"
    and "cropped_cache (allocate_filtered s) = cropped_cache s"
    and "preprocessed_cache (allocate_filtered s) = preprocessed_cache s"
  using consistentD[OF assms]
  by (cases "orig_images_preprocessed s";
      auto simp: allocate_filtered_def view_defs split: fcache.splits option.splits)+

lemma allocate_filtered_cropped:
  assumes "consistent s" "images_cropped s = Some c" "images_filtered s \<noteq> FZeroDim"
  shows "filtered_cache (allocate_filtered s) =
     Some (case filtered_cache s of Some fc \<Rightarrow> fc | None \<Rightarrow> zeros_like (heap s c))"
  using assms(2,3)
  by (auto simp: allocate_filtered_def view_defs split: fcache.splits option.splits)

lemma allocate_filtered_uncropped:
  assumes "images_cropped s = None" "filtered_ref s = {}"
  shows "filtered_ref (allocate_filtered s) = {}"
  using assms
  by (auto simp: allocate_filtered_def filtered_ref_def split: fcache.splits option.splits)

lemma keeps_raw_commit:
  assumes "consistent s"
  shows "keeps_raw s (state_of (commit_filtered ixs vals s))"
proof (cases "images_filtered s")
  case (FArr f)
  note lf = consistent_lengths(5)[OF assms FArr]
  show ?thesis
  proof (cases "put_frames (heap s f) ixs vals")
    case (Inl e)
    then show ?thesis using assms FArr by (simp add: commit_filtered_def keeps_raw_refl)
  next
    case (Inr arr)
    define s' where "s' = overwrite f arr s"
    have k1: "keeps_raw s s'"
      unfolding s'_def using assms FArr lf length_put_frames[OF Inr]
      by (simp add: keeps_raw_overwrite_filtered)
    then have c': "consistent s'" by (simp add: keeps_raw_def)
    show ?thesis
    proof (cases "put_frames (images s') ixs vals")
      case (Inl e)
      then show ?thesis
        using FArr Inr k1 by (simp add: commit_filtered_def s'_def[symmetric])
    next
      case Inr2: (Inr arr')
      have "keeps_raw s' (overwrite (images_ref s') arr' s')"
        using c' length_put_frames[OF Inr2] consistent_lengths(1)[OF c']
        by (simp add: keeps_raw_overwrite_images)
      then show ?thesis
        using FArr Inr Inr2 keeps_raw_trans[OF k1]
        by (simp add: commit_filtered_def s'_def[symmetric])
    qed
  qed
qed (use assms in \<open>simp_all add: commit_filtered_def keeps_raw_refl\<close>)

lemma commit_filtered_result:
  fixes s :: dataset
  assumes "consistent s" and old: "filtered_cache s = Some old"
    and js: "norm_indices (length (defvals s)) ixs = Some js"
    and sh: "shapes old = sh" "shapes (images s) = sh"
    and vs: "\<forall>(j, v) \<in> set (zip js vals). j < length sh \<and> map length v = sh ! j"
  defines "r \<equiv> state_of (commit_filtered ixs vals s)"
  shows "commit_filtered ixs vals s = Done r"
    and "images r = write_all (zip js vals) (images s)"
    and "filtered_cache r = Some (write_all (zip js vals) old)"
    and "cropped_cache r = cropped_cache s"
    and "preprocessed_cache r = preprocessed_cache s"
proof -
  from old obtain f where f: "images_filtered s = FArr f" and hf: "heap s f = old"
    by (auto simp: filtered_cache_def split: fcache.splits)
  note D = consistentD[OF assms(1)]
  note Df = D(6)[OF f]
  have lo: "length old = length (defvals s)"
    using consistent_lengths(5)[OF assms(1) f] hf by simp
  have li: "length (images s) = length (defvals s)"
    using consistent_lengths(1)[OF assms(1)] .
  have p1: "put_frames old ixs vals = Inr (write_all (zip js vals) old)"
    using write_frames_exact[OF sh(1) vs] js lo by (simp add: put_frames_def)
  have p2: "put_frames (images s) ixs vals = Inr (write_all (zip js vals) (images s))"
    using write_frames_exact[OF sh(2) vs] js li by (simp add: put_frames_def)
  define s' where "s' = overwrite f (write_all (zip js vals) old) s"
  have i': "images s' = images s"
    using Df by (simp add: s'_def images_def)
  have eq: "commit_filtered ixs vals s =
      Done (overwrite (images_ref s') (write_all (zip js vals) (images s)) s')"
    using f hf p1 p2 i' by (simp add: commit_filtered_def s'_def[symmetric])
  then have r: "r = overwrite (images_ref s') (write_all (zip js vals) (images s)) s'"
    by (simp add: r_def)
  show "commit_filtered ixs vals s = Done r" using eq r by simp
  show "images r = write_all (zip js vals) (images s)"
    by (simp add: r images_def s'_def)
  show "filtered_cache r = Some (write_all (zip js vals) old)"
    using f Df by (simp add: r filtered_cache_def s'_def)
  show "cropped_cache r = cropped_cache s"
    using Df D(5) by (cases "images_cropped s") (auto simp: r cropped_cache_def s'_def)
  show "preprocessed_cache r = preprocessed_cache s"
    using Df D(4) by (cases "orig_images_preprocessed s") (auto simp: r preprocessed_cache_def s'_def)
qed

lemma keeps_raw_filter_stage:
  assumes "consistent s"
  shows "keeps_raw s (state_of (filter_stage L ql qh ft bo idx s))"
proof -
  have k: "keeps_raw s (state_of (commit_filtered ixs vals
              (allocate_filtered (s\<lparr>filtered := True, filters := F\<rparr>))))" for ixs vals F
  proof -
    define s1 where "s1 = s\<lparr>filtered := True, filters := F\<rparr>"
    have c1: "consistent s1" using assms by (simp add: s1_def)
    have k1: "keeps_raw s s1" using assms by (simp add: s1_def keeps_raw_refl)
    have k2: "keeps_raw s1 (allocate_filtered s1)" using c1 by (rule keeps_raw_allocate)
    then have "consistent (allocate_filtered s1)" by (simp add: keeps_raw_def)
    from keeps_raw_commit[OF this] keeps_raw_trans[OF k1 k2]
    show ?thesis unfolding s1_def[symmetric] by (blast intro: keeps_raw_trans)
  qed
  show ?thesis
    using assms by (simp add: filter_stage_def Let_def keeps_raw_refl k split: option.splits)
qed

lemma filter_stage_fields:
  "beam_energy_priv (state_of (filter_stage L ql qh ft bo idx s)) = beam_energy_priv s"
  "images_cropped (state_of (filter_stage L ql qh ft bo idx s)) = images_cropped s"
  "orig_images_preprocessed (state_of (filter_stage L ql qh ft bo idx s)) = orig_images_preprocessed s"
  "cropped (state_of (filter_stage L ql qh ft bo idx s)) = cropped s"
  "preprocessed (state_of (filter_stage L ql qh ft bo idx s)) = preprocessed s"
  "defvals (state_of (filter_stage L ql qh ft bo idx s)) = defvals s"
  "transforms (state_of (filter_stage L ql qh ft bo idx s)) = transforms s"
  "orig_shape (state_of (filter_stage L ql qh ft bo idx s)) = orig_shape s"
  by (simp_all add: filter_stage_def Let_def split: option.splits)

lemma flags_ok_allocate:
  "flags_ok s \<Longrightarrow> flags_ok (allocate_filtered (s\<lparr>filtered := True, filters := F\<rparr>))"
  by (auto simp: flags_ok_def allocate_filtered_def filtered_ref_def
      split: fcache.splits option.splits)

lemma flags_ok_commit [simp]:
  "flags_ok (state_of (commit_filtered ixs vals s)) = flags_ok s"
  by (simp add: flags_ok_def filtered_ref_def)

lemma flags_ok_filter_stage:
  "flags_ok s \<Longrightarrow> flags_ok (state_of (filter_stage L ql qh ft bo idx s))"
  by (simp add: filter_stage_def Let_def flags_ok_allocate split: option.splits)

lemma zip_map_same: "zip xs (map f xs) = map (\<lambda>x. (x, f x)) xs"
  by (induction xs) auto

lemma filter_stage_result:
  fixes L :: lib and s :: dataset and ql qh :: "real option" and ft :: string and bo :: int
  assumes c: "consistent s" and fl: "flags_ok s" and so: "shapes_ok s" and cr: "cropped s"
    and ks: "keeps_shape L"
    and ix: "indices_of (length (images s)) idx = Some ixs"
    and js: "norm_indices (length (defvals s)) ixs = Some js"
  defines "r \<equiv> state_of (filter_stage L ql qh ft bo idx s)"
  defines "crp \<equiv> the (cropped_cache s)"
  defines "vals \<equiv> map (\<lambda>j. bandpass_filter L (crp ! j) ql qh ft bo) js"
  defines "old \<equiv> (case filtered_cache s of Some fc \<Rightarrow> fc | None \<Rightarrow> zeros_like crp)"
  shows "filter_stage L ql qh ft bo idx s = Done r"
    and "images r = write_all (zip js vals) (images s)"
    and "filtered_cache r = Some (write_all (zip js vals) old)"
    and "cropped_cache r = cropped_cache s"
    and "shapes_ok r"
proof -
  from cr fl obtain cref where cref: "images_cropped s = Some cref"
    by (auto simp: flags_ok_def)
  have crp: "crp = heap s cref" "cropped_cache s = Some crp"
    by (simp_all add: crp_def cropped_cache_def cref)
  have lc: "length crp = length (defvals s)"
    using consistent_lengths(4)[OF c cref] crp by simp
  have nz: "images_filtered s \<noteq> FZeroDim"
    using cr fl by (simp add: flags_ok_def)
  define F where "F = (filters s)\<lparr>q_lowpass := ql, q_highpass := qh,
                          filter_type := ft, butterworth_order := bo\<rparr>"
  define s1 where "s1 = s\<lparr>filtered := True, filters := F\<rparr>"
  define a where "a = allocate_filtered s1"
  have c1: "consistent s1" using c by (simp add: s1_def)
  have ca: "consistent a"
    using keeps_raw_allocate[OF c1] by (simp add: a_def keeps_raw_def)
  have fa: "filtered_cache a = Some old"
  proof -
    have "filtered_cache a =
        Some (case filtered_cache s1 of Some fc \<Rightarrow> fc | None \<Rightarrow> zeros_like (heap s1 cref))"
      unfolding a_def
      by (rule allocate_filtered_cropped) (use c1 cref nz in \<open>simp_all add: s1_def\<close>)
    moreover have "filtered_cache s1 = filtered_cache s" "heap s1 cref = crp"
      by (simp_all add: s1_def crp)
    ultimately show ?thesis by (simp only: old_def)
  qed
  have ia: "images a = images s" "cropped_cache a = cropped_cache s"
    using allocate_filtered_views[OF c1] by (simp_all add: a_def s1_def)
  have da: "defvals a = defvals s" by (simp add: a_def s1_def)
  have sh_old: "shapes old = shapes crp"
    using so crp by (cases "filtered_cache s") (simp_all add: old_def shapes_ok_def)
  have sh_im: "shapes (images a) = shapes crp"
    using so crp ia by (simp add: shapes_ok_def)
  have jb: "\<forall>j\<in>set js. j < length crp"
    using norm_indices_D(2)[OF js] lc by simp
  have vs: "\<forall>(j, v) \<in> set (zip js vals). j < length (shapes crp) \<and> map length v = shapes crp ! j"
    using jb ks by (auto simp: vals_def zip_map_same shapes_def keeps_shape_def)
  note C = commit_filtered_result[OF ca fa js[folded da] sh_old sh_im vs]
  have tf: "take_frames (heap s cref) ixs = Some (map (\<lambda>j. crp ! j) js)"
    using js lc crp by (simp add: take_frames_def)
  have eq: "filter_stage L ql qh ft bo idx s = commit_filtered ixs vals a"
    using ix cr cref tf
    by (simp add: filter_stage_def filter_input_def Let_def a_def s1_def F_def vals_def o_def)
  then have r: "r = state_of (commit_filtered ixs vals a)" by (simp add: r_def)
  show "filter_stage L ql qh ft bo idx s = Done r" using eq C(1) r by simp
  show i: "images r = write_all (zip js vals) (images s)" using C(2) ia r by simp
  show f: "filtered_cache r = Some (write_all (zip js vals) old)" using C(3) r by simp
  show cc: "cropped_cache r = cropped_cache s" using C(4) ia r by simp
  have "shapes (write_all (zip js vals) old) = shapes crp"
    using write_frames_exact[OF sh_old vs] by simp
  moreover have "shapes (write_all (zip js vals) (images s)) = shapes crp"
    using write_frames_exact[OF sh_im vs] ia by simp
  ultimately show "shapes_ok r"
    using i f cc crp by (simp add: shapes_ok_def)
qed

lemma commit_filtered_Done_D:
  "commit_filtered ixs vals s = Done r \<Longrightarrow> filtered_ref s \<noteq> {}"
  by (auto simp: commit_filtered_def filtered_ref_def split: fcache.splits)

lemma filter_stage_Done_D:
  assumes d: "filter_stage L ql qh ft bo idx s = Done r" and c: "consistent s" and fl: "flags_ok s"
  shows "cropped s"
    and "\<exists>ixs js. indices_of (length (images s)) idx = Some ixs \<and>
           norm_indices (length (defvals s)) ixs = Some js"
proof -
  from d obtain ixs b input where ix: "indices_of (length (images s)) idx = Some ixs"
    and b: "filter_input s = Some b" and tf: "take_frames (heap s b) ixs = Some input"
    by (auto simp: filter_stage_def split: option.splits)
  define F where "F = (filters s)\<lparr>q_lowpass := ql, q_highpass := qh,
                          filter_type := ft, butterworth_order := bo\<rparr>"
  define s1 where "s1 = s\<lparr>filtered := True, filters := F\<rparr>"
  from d ix b tf have "\<exists>vals. commit_filtered ixs vals (allocate_filtered s1) = Done r"
    by (auto simp: filter_stage_def Let_def s1_def F_def)
  then have ne: "filtered_ref (allocate_filtered s1) \<noteq> {}"
    by (auto dest: commit_filtered_Done_D)
  show cr: "cropped s"
  proof (rule ccontr)
    assume "\<not> cropped s"
    with fl have "images_cropped s1 = None" "filtered_ref s1 = {}"
      by (auto simp: flags_ok_def s1_def filtered_ref_def)
    from allocate_filtered_uncropped[OF this] ne show False by simp
  qed
  with fl b obtain cref where cref: "images_cropped s = Some cref" "b = cref"
    by (auto simp: flags_ok_def filter_input_def)
  from tf have "norm_indices (length (heap s b)) ixs \<noteq> None"
    by (auto simp: take_frames_def)
  then show "\<exists>ixs js. indices_of (length (images s)) idx = Some ixs \<and>
           norm_indices (length (defvals s)) ixs = Some js"
    using ix consistent_lengths(4)[OF c cref(1)] cref(2) by auto
qed

lemma shapes_ok_filter_stage:
  assumes c: "consistent s" and fl: "flags_ok s" and so: "shapes_ok s" and ks: "keeps_shape L"
  shows "shapes_ok (state_of (filter_stage L ql qh ft bo idx s))"
proof (cases "cropped s")
  case False
  with fl have "images_cropped (state_of (filter_stage L ql qh ft bo idx s)) = None"
    by (simp add: filter_stage_fields flags_ok_def)
  then show ?thesis by (simp add: shapes_ok_def cropped_cache_def)
next
  case True
  with fl obtain cref where cref: "images_cropped s = Some cref"
    by (auto simp: flags_ok_def)
  show ?thesis
  proof (cases "indices_of (length (images s)) idx")
    case None
    then show ?thesis using so by (simp add: filter_stage_def)
  next
    case (Some ixs)
    show ?thesis
    proof (cases "norm_indices (length (defvals s)) ixs")
      case None
      then have "take_frames (heap s cref) ixs = None"
        using consistent_lengths(4)[OF c cref] by (simp add: take_frames_def)
      then show ?thesis
        using so Some True cref by (simp add: filter_stage_def filter_input_def)
    next
      case js: (Some js)
      from filter_stage_result(5)[OF c fl so True ks Some js] show ?thesis .
    qed
  qed
qed

lemma put_frames_other:
  assumes "put_frames arr ixs vals = Inr arr'" and "norm_indices (length arr) ixs = Some js"
    and "j \<notin> set js"
  shows "arr' ! j = arr ! j"
proof -
  from assms(1,2) have w: "write_frames arr (zip js vals) = Some arr'"
    by (auto simp: put_frames_def split: option.splits)
  have "j \<notin> fst ` set (zip js vals)"
    using assms(3) by (auto dest: set_zip_leftD)
  with w show ?thesis by (rule write_frames_other)
qed

text \<open>Whatever the outcome of the two writes, they leave the frames outside the selected
  positions as they were, in Current View and in a Filtered cache that existed.\<close>

lemma commit_filtered_frame:
  assumes c: "consistent a" and js: "norm_indices (length (defvals a)) ixs = Some js"
    and j: "j \<notin> set js"
  shows "images (state_of (commit_filtered ixs vals a)) ! j = images a ! j"
    and "filtered_cache a = Some fc \<Longrightarrow>
         \<exists>fc'. filtered_cache (state_of (commit_filtered ixs vals a)) = Some fc' \<and> fc' ! j = fc ! j"
proof -
  have "images (state_of (commit_filtered ixs vals a)) ! j = images a ! j \<and>
    (filtered_cache a = Some fc \<longrightarrow>
       (\<exists>fc'. filtered_cache (state_of (commit_filtered ixs vals a)) = Some fc' \<and> fc' ! j = fc ! j))"
  proof (cases "images_filtered a")
    case (FArr f)
    note Df = consistentD(6)[OF c FArr]
    note lf = consistent_lengths(5)[OF c FArr]
    note li = consistent_lengths(1)[OF c]
    show ?thesis
    proof (cases "put_frames (heap a f) ixs vals")
      case (Inl e)
      then show ?thesis using FArr by (simp add: commit_filtered_def)
    next
      case (Inr arr)
      define s' where "s' = overwrite f arr a"
      have i': "images s' = images a" using Df by (simp add: s'_def images_def)
      have aj: "arr ! j = heap a f ! j"
        using put_frames_other[OF Inr _ j] js lf by simp
      have f': "filtered_cache s' = Some arr" using FArr by (simp add: s'_def filtered_cache_def)
      show ?thesis
      proof (cases "put_frames (images s') ixs vals")
        case (Inl e)
        then show ?thesis
          using FArr Inr i' f' aj
          by (simp add: commit_filtered_def s'_def[symmetric]) (simp add: filtered_cache_def)
      next
        case Inr2: (Inr arr')
        have "arr' ! j = images a ! j"
          using put_frames_other[OF Inr2 _ j] js li i' by simp
        moreover have "filtered_cache (overwrite (images_ref s') arr' s') = Some arr"
          using FArr Df by (simp add: s'_def filtered_cache_def)
        moreover have "images (overwrite (images_ref s') arr' s') = arr'"
          by (simp add: images_def)
        ultimately show ?thesis
          using FArr Inr Inr2 aj
          by (simp add: commit_filtered_def s'_def[symmetric]) (simp add: filtered_cache_def)
      qed
    qed
  qed (simp_all add: commit_filtered_def filtered_cache_def)
  then show "images (state_of (commit_filtered ixs vals a)) ! j = images a ! j"
    and "filtered_cache a = Some fc \<Longrightarrow>
         \<exists>fc'. filtered_cache (state_of (commit_filtered ixs vals a)) = Some fc' \<and> fc' ! j = fc ! j"
    by simp_all
qed

lemma allocate_filtered_keeps_cache:
  "filtered_cache s = Some fc \<Longrightarrow> filtered_cache (allocate_filtered s) = Some fc"
  by (auto simp: allocate_filtered_def filtered_cache_def split: fcache.splits)

text \<open>The frame property of \<^verbatim>\<open>filter\<close>: on every dataset whose arrays are consistent,
  in every stage state and whether the call returns or raises, the frames of Current View
  at the positions that are not selected are unchanged, and so are those of a Filtered
  cache that was there before.\<close>

lemma filter_stage_frame:
  assumes c: "consistent s" and ix: "indices_of (length (images s)) idx = Some ixs"
    and js: "norm_indices (length (images s)) ixs = Some js" and j: "j \<notin> set js"
  shows "images (state_of (filter_stage L ql qh ft bo idx s)) ! j = images s ! j"
    and "filtered_cache s = Some fc \<Longrightarrow>
         \<exists>fc'. filtered_cache (state_of (filter_stage L ql qh ft bo idx s)) = Some fc' \<and>
               fc' ! j = fc ! j"
proof -
  define F where "F = (filters s)\<lparr>q_lowpass := ql, q_highpass := qh,
                          filter_type := ft, butterworth_order := bo\<rparr>"
  define s1 where "s1 = s\<lparr>filtered := True, filters := F\<rparr>"
  define a where "a = allocate_filtered s1"
  have c1: "consistent s1" using c by (simp add: s1_def)
  have ca: "consistent a" using keeps_raw_allocate[OF c1] by (simp add: a_def keeps_raw_def)
  have ia: "images a = images s" using allocate_filtered_views(1)[OF c1] by (simp add: a_def s1_def)
  have ja: "norm_indices (length (defvals a)) ixs = Some js"
    using js consistent_lengths(1)[OF c] by (simp add: a_def s1_def)
  have fa: "filtered_cache a = Some fc" if "filtered_cache s = Some fc"
    using that allocate_filtered_keeps_cache[of s1 fc] by (simp add: a_def s1_def)
  note C = commit_filtered_frame[OF ca ja j]
  have cases: "state_of (filter_stage L ql qh ft bo idx s) = s \<or>
      (\<exists>vals. state_of (filter_stage L ql qh ft bo idx s) = state_of (commit_filtered ixs vals a))"
    using ix by (auto simp: filter_stage_def Let_def a_def s1_def F_def split: option.splits)
  show "images (state_of (filter_stage L ql qh ft bo idx s)) ! j = images s ! j"
    using cases C(1) ia by auto
  show "\<exists>fc'. filtered_cache (state_of (filter_stage L ql qh ft bo idx s)) = Some fc' \<and>
               fc' ! j = fc ! j" if "filtered_cache s = Some fc"
    using cases C(2)[OF fa[OF that]] that by auto
qed

text \<open>When \<^verbatim>\<open>filter\<close> returns, at every position that is not selected Current View
  keeps its frame, a Filtered cache that was just allocated holds a zero frame of the
  shape of the Cropped frame, and a Filtered cache that was there before keeps its
  frame.\<close>

lemma filter_stage_unselected:
  assumes c: "consistent s" and fl: "flags_ok s"
    and d: "filter_stage L ql qh ft bo idx s = Done r"
    and ix: "indices_of (length (images s)) idx = Some ixs"
    and js: "norm_indices (length (images s)) ixs = Some js"
    and j: "j \<notin> set js" and jn: "j < length (images s)"
  shows "images r ! j = images s ! j"
    and "filtered_cache s = None \<Longrightarrow>
         \<exists>f cr. filtered_cache r = Some f \<and> cropped_cache s = Some cr \<and>
               f ! j = map (map (\<lambda>_. 0)) (cr ! j)"
    and "filtered_cache s = Some fc \<Longrightarrow> \<exists>f. filtered_cache r = Some f \<and> f ! j = fc ! j"
proof -
  have r: "r = state_of (filter_stage L ql qh ft bo idx s)" using d by simp
  show "images r ! j = images s ! j"
    unfolding r using c ix js j by (rule filter_stage_frame(1))
  show "\<exists>f. filtered_cache r = Some f \<and> f ! j = fc ! j" if "filtered_cache s = Some fc"
    unfolding r using c ix js j that by (rule filter_stage_frame(2))
  show "\<exists>f cr. filtered_cache r = Some f \<and> cropped_cache s = Some cr \<and>
               f ! j = map (map (\<lambda>_. 0)) (cr ! j)" if none: "filtered_cache s = None"
  proof -
    from filter_stage_Done_D(1)[OF d c fl] have crp: "cropped s" .
    with fl obtain cref where cref: "images_cropped s = Some cref"
      by (auto simp: flags_ok_def)
    have nz: "images_filtered s \<noteq> FZeroDim"
      using crp fl by (simp add: flags_ok_def)
    define F where "F = (filters s)\<lparr>q_lowpass := ql, q_highpass := qh,
                            filter_type := ft, butterworth_order := bo\<rparr>"
    define s1 where "s1 = s\<lparr>filtered := True, filters := F\<rparr>"
    define a where "a = allocate_filtered s1"
    have c1: "consistent s1" using c by (simp add: s1_def)
    have ca: "consistent a" using keeps_raw_allocate[OF c1] by (simp add: a_def keeps_raw_def)
    have ja: "norm_indices (length (defvals a)) ixs = Some js"
      using js consistent_lengths(1)[OF c] by (simp add: a_def s1_def)
    have "filtered_cache a =
        Some (case filtered_cache s1 of Some fc \<Rightarrow> fc | None \<Rightarrow> zeros_like (heap s1 cref))"
      unfolding a_def
      by (rule allocate_filtered_cropped) (use c1 cref nz in \<open>simp_all add: s1_def\<close>)
    moreover have "filtered_cache s1 = None" "heap s1 cref = heap s cref"
      using none by (simp_all add: s1_def)
    ultimately have fa: "filtered_cache a = Some (zeros_like (heap s cref))" by simp
    from d ix have "\<exists>vals. commit_filtered ixs vals a = Done r"
      by (auto simp: filter_stage_def Let_def a_def s1_def F_def split: option.splits)
    then obtain vals where v: "commit_filtered ixs vals a = Done r" ..
    from commit_filtered_frame(2)[OF ca ja j fa, of vals] v
    obtain f where f: "filtered_cache r = Some f" "f ! j = zeros_like (heap s cref) ! j"
      by auto
    have "j < length (heap s cref)"
      using jn consistent_lengths(1,4)[OF c] cref by simp
    then have "zeros_like (heap s cref) ! j = map (map (\<lambda>_. 0)) (heap s cref ! j)"
      by (simp add: zeros_like_def)
    with f show ?thesis by (simp add: cropped_cache_def cref)
  qed
qed

subsection \<open>The other calls\<close>

lemma select_ROI_cases:
  obtains T where "state_of (select_ROI L idx img s) = s\<lparr>transforms := T\<rparr>"
proof -
  have "state_of (select_ROI L idx img s) =
      s\<lparr>transforms := transforms (state_of (select_ROI L idx img s))\<rparr>"
    by (simp add: select_ROI_def Let_def split: option.splits)
  then show thesis by (rule that)
qed

lemma images_setter_state:
  "state_of (images_setter st s) = s \<or>
   (length st = length (defvals s) \<and> state_of (images_setter st s) = bind_images st s)"
  by (simp add: images_setter_def)

lemma flags_ok_bind_images [simp]: "flags_ok (bind_images st s) = flags_ok s"
  by (simp add: flags_ok_def filtered_ref_def)

lemma set_defvals_cases:
  obtains "state_of (set_defvals dfs s) = s"
  | ds where "length ds = length (images s)" "state_of (set_defvals dfs s) = s\<lparr>defvals := ds\<rparr>"
proof -
  have "state_of (set_defvals dfs s) = s \<or>
     (length (defvals (state_of (set_defvals dfs s))) = length (images s) \<and>
      state_of (set_defvals dfs s) = s\<lparr>defvals := defvals (state_of (set_defvals dfs s))\<rparr>)"
    by (simp add: set_defvals_def defvals_checked_def split: defvals_arg.splits)
  then show thesis using that by blast
qed

lemma set_energy_cases:
  obtains e where "state_of (set_energy v s) = s\<lparr>beam_energy_priv := e\<rparr>"
proof -
  have "state_of (set_energy v s) =
      s\<lparr>beam_energy_priv := beam_energy_priv (state_of (set_energy v s))\<rparr>"
    by (simp add: set_energy_def split: option.splits sum.splits)
  then show thesis by (rule that)
qed

lemma keeps_raw_defvals:
  "consistent s \<Longrightarrow> length ds = length (images s) \<Longrightarrow> keeps_raw s (s\<lparr>defvals := ds\<rparr>)"
  using consistent_lengths(1)[of s]
  by (simp add: keeps_raw_def consistent_defvals)

lemma flags_shapes_defvals [simp]:
  "flags_ok (s\<lparr>defvals := ds\<rparr>) = flags_ok s"
  "shapes_ok (s\<lparr>defvals := ds\<rparr>) = shapes_ok s"
  by (simp_all add: flags_ok_def shapes_ok_def filtered_ref_def)

lemma perform_keeps_raw:
  assumes "consistent s"
  shows "keeps_raw s (state_of (perform L c s))"
proof (cases c)
  case (Preprocess hp m fast)
  then show ?thesis using preprocess_result(2)[OF assms] by simp
next
  case ApplyTransforms
  then show ?thesis using keeps_raw_apply_transforms[OF assms] by simp
next
  case (Filter ql qh ft bo idx)
  then show ?thesis using keeps_raw_filter_stage[OF assms] by simp
next
  case ResetTransforms
  then show ?thesis using reset_transforms_result(1)[OF assms] by simp
next
  case (SelectROI idx img)
  obtain T where "state_of (select_ROI L idx img s) = s\<lparr>transforms := T\<rparr>"
    by (rule select_ROI_cases)
  then show ?thesis using SelectROI assms by (simp add: keeps_raw_refl)
next
  case (SetImages ims)
  then show ?thesis
    using images_setter_state[of "promote ims" s] assms
    by (auto simp: set_images_def keeps_raw_refl keeps_raw_bind)
next
  case (SetDefvals dfs)
  show ?thesis
  proof (rule set_defvals_cases[of dfs s])
    assume "state_of (set_defvals dfs s) = s"
    then show ?thesis using SetDefvals assms by (simp add: keeps_raw_refl)
  next
    fix ds assume "length ds = length (images s)"
      and "state_of (set_defvals dfs s) = s\<lparr>defvals := ds\<rparr>"
    then show ?thesis using SetDefvals assms by (simp add: keeps_raw_defvals)
  qed
next
  case (SetEnergy v)
  obtain e where "state_of (set_energy v s) = s\<lparr>beam_energy_priv := e\<rparr>"
    by (rule set_energy_cases)
  then show ?thesis using SetEnergy assms by (simp add: keeps_raw_refl)
next
  case (SetTransforms T)
  then show ?thesis using assms by (simp add: keeps_raw_refl)
qed

lemma perform_flags_ok:
  assumes "consistent s" "flags_ok s"
  shows "flags_ok (state_of (perform L c s))"
proof (cases c)
  case (Preprocess hp m fast)
  then show ?thesis using preprocess_result(6)[OF assms] by simp
next
  case ApplyTransforms
  then show ?thesis using flags_ok_apply_transforms[OF assms] by simp
next
  case (Filter ql qh ft bo idx)
  then show ?thesis using flags_ok_filter_stage[OF assms(2)] by simp
next
  case ResetTransforms
  then show ?thesis using reset_transforms_result(5)[OF assms] by simp
next
  case (SelectROI idx img)
  obtain T where "state_of (select_ROI L idx img s) = s\<lparr>transforms := T\<rparr>"
    by (rule select_ROI_cases)
  then show ?thesis using SelectROI assms by (simp)
next
  case (SetImages ims)
  then show ?thesis
    using images_setter_state[of "promote ims" s] assms by (auto simp: set_images_def)
next
  case (SetDefvals dfs)
  show ?thesis
  proof (rule set_defvals_cases[of dfs s])
    assume "state_of (set_defvals dfs s) = s"
    then show ?thesis using SetDefvals assms by (simp)
  next
    fix ds assume "length ds = length (images s)"
      and "state_of (set_defvals dfs s) = s\<lparr>defvals := ds\<rparr>"
    then show ?thesis using SetDefvals assms by (simp)
  qed
next
  case (SetEnergy v)
  obtain e where "state_of (set_energy v s) = s\<lparr>beam_energy_priv := e\<rparr>"
    by (rule set_energy_cases)
  then show ?thesis using SetEnergy assms by (simp)
next
  case (SetTransforms T)
  then show ?thesis using assms by (simp)
qed

lemma perform_shapes_ok:
  assumes "consistent s" "flags_ok s" "shapes_ok s" "keeps_shape L" "\<not> assigns_images c"
  shows "shapes_ok (state_of (perform L c s))"
proof (cases c)
  case (Preprocess hp m fast)
  then show ?thesis using preprocess_result(7)[OF assms(1,2,4)] by simp
next
  case ApplyTransforms
  then show ?thesis using shapes_ok_apply_transforms[OF assms(1,2,4)] by simp
next
  case (Filter ql qh ft bo idx)
  then show ?thesis using shapes_ok_filter_stage[OF assms(1-4)] by simp
next
  case ResetTransforms
  then show ?thesis using reset_transforms_result(6)[OF assms(1,2,4)] by simp
next
  case (SelectROI idx img)
  obtain T where "state_of (select_ROI L idx img s) = s\<lparr>transforms := T\<rparr>"
    by (rule select_ROI_cases)
  then show ?thesis using SelectROI assms by (simp)
next
  case (SetImages ims)
  then show ?thesis
    using assms(5) by simp
next
  case (SetDefvals dfs)
  show ?thesis
  proof (rule set_defvals_cases[of dfs s])
    assume "state_of (set_defvals dfs s) = s"
    then show ?thesis using SetDefvals assms by (simp)
  next
    fix ds assume "length ds = length (images s)"
      and "state_of (set_defvals dfs s) = s\<lparr>defvals := ds\<rparr>"
    then show ?thesis using SetDefvals assms by (simp)
  qed
next
  case (SetEnergy v)
  obtain e where "state_of (set_energy v s) = s\<lparr>beam_energy_priv := e\<rparr>"
    by (rule set_energy_cases)
  then show ?thesis using SetEnergy assms by (simp)
next
  case (SetTransforms T)
  then show ?thesis using assms by (simp)
qed

lemma energy_apply_transforms:
  "beam_energy_priv (state_of (apply_transforms L s)) = beam_energy_priv s"
  by (simp add: apply_transforms_def images_setter_def Let_def split: option.splits)

lemma perform_energy:
  assumes "consistent s" "\<not> assigns_energy c"
  shows "beam_energy_priv (state_of (perform L c s)) = beam_energy_priv s"
proof (cases c)
  case (Preprocess hp m fast)
  then show ?thesis using preprocess_result(5)[OF assms(1)] by simp
next
  case (Filter ql qh ft bo idx)
  then show ?thesis by (simp add: filter_stage_fields)
next
  case ResetTransforms
  then show ?thesis using reset_transforms_result(2)[OF assms(1)] by simp
next
  case (SelectROI idx img)
  obtain T where "state_of (select_ROI L idx img s) = s\<lparr>transforms := T\<rparr>"
    by (rule select_ROI_cases)
  then show ?thesis using SelectROI by simp
next
  case (SetImages ims)
  then show ?thesis
    using images_setter_state[of "promote ims" s] by (auto simp: set_images_def)
next
  case (SetDefvals dfs)
  show ?thesis
    by (rule set_defvals_cases[of dfs s]) (simp_all add: SetDefvals)
next
  case (SetEnergy v)
  then show ?thesis using assms(2) by simp
qed (simp_all add: energy_apply_transforms)

subsection \<open>Construction and sequences of calls\<close>

lemma init_invariants:
  assumes "init F ims dfs en = Inr s"
  shows "consistent s" and "flags_ok s" and "shapes_ok s" and "beam_energy_priv s = None"
    and "raw s = promote ims" and "images s = promote ims"
  using assms
  by (auto simp: init_def Let_def consistent_defs flags_ok_def shapes_ok_def view_defs
      defvals_checked_def split: sum.splits defvals_arg.splits if_splits)

lemma run_invariants:
  "consistent s \<Longrightarrow> flags_ok s \<Longrightarrow> keeps_raw s (run L cs s) \<and> flags_ok (run L cs s)"
proof (induction cs arbitrary: s)
  case Nil
  then show ?case by (simp add: keeps_raw_refl)
next
  case (Cons c cs)
  define t where "t = state_of (perform L c s)"
  have k: "keeps_raw s t" unfolding t_def using Cons.prems(1) by (rule perform_keeps_raw)
  then have ct: "consistent t" by (simp add: keeps_raw_def)
  have ft: "flags_ok t" unfolding t_def using Cons.prems by (rule perform_flags_ok)
  from Cons.IH[OF ct ft] keeps_raw_trans[OF k] show ?case
    by (simp add: t_def)
qed

lemma run_shapes_ok:
  "consistent s \<Longrightarrow> flags_ok s \<Longrightarrow> shapes_ok s \<Longrightarrow> keeps_shape L \<Longrightarrow>
   \<forall>c\<in>set cs. \<not> assigns_images c \<Longrightarrow> shapes_ok (run L cs s)"
proof (induction cs arbitrary: s)
  case Nil
  then show ?case by simp
next
  case (Cons c cs)
  define t where "t = state_of (perform L c s)"
  have ct: "consistent t"
    using perform_keeps_raw[OF Cons.prems(1), of L c] by (simp add: t_def keeps_raw_def)
  have ft: "flags_ok t" unfolding t_def using Cons.prems(1,2) by (rule perform_flags_ok)
  have st: "shapes_ok t"
    unfolding t_def using Cons.prems by (intro perform_shapes_ok) simp_all
  from Cons.IH[OF ct ft st Cons.prems(4)] Cons.prems(5) show ?case
    by (simp add: t_def)
qed

lemma run_energy:
  "consistent s \<Longrightarrow> \<forall>c\<in>set cs. \<not> assigns_energy c \<Longrightarrow>
   beam_energy_priv (run L cs s) = beam_energy_priv s"
proof (induction cs arbitrary: s)
  case Nil
  then show ?case by simp
next
  case (Cons c cs)
  define t where "t = state_of (perform L c s)"
  have ct: "consistent t"
    using perform_keeps_raw[OF Cons.prems(1), of L c] by (simp add: t_def keeps_raw_def)
  have "beam_energy_priv t = beam_energy_priv s"
    unfolding t_def using Cons.prems by (intro perform_energy) simp_all
  with Cons.IH[OF ct] Cons.prems(2) show ?case
    by (simp add: t_def)
qed

section \<open>Construction and the energy property\<close>

lemmas eval_defs = init_def defvals_checked_def filter_stage_def images_def filter_input_def
  take_frames_def norm_indices_def norm_index_def allocate_filtered_def commit_filtered_def
  example_lib_def example_filters_def example_dataset_def Let_def frame_shape_def shape_of_def
  default_transforms_def filtered_cache_def energy_def

text \<open>
  Claim C9. Constructing a dataset without defocus values (\<^verbatim>\<open>defvals=None\<close>) raises a
  TypeError, whatever the image stack (in particular for every non-empty one): the
  \<^verbatim>\<open>defvals\<close> setter of line 70 takes \<^verbatim>\<open>len(None)\<close>.
\<close>

theorem C9_missing_defvals_TypeError:
  "init F ims DvNone en = Inl TypeError"
  by (simp add: init_def defvals_checked_def)

text \<open>
  Claim C5. A beam energy that is not numeric or not strictly positive should fail with a
  validation error, also as the \<^verbatim>\<open>beam_energy\<close> argument of the constructor. The
  constructor accepts -5 and the string \<^verbatim>\<open>"high"\<close>: it stores the argument in the
  plain attribute \<^verbatim>\<open>beam_energy\<close> and never goes through the validating setter.
\<close>

theorem C5_constructor_skips_energy_check:
  "(\<exists>s. init example_filters (Img2 [[1]]) (DvScalar 0) (PyInt (- 5)) = Inr s \<and>
        beam_energy s = PyInt (- 5)) \<and>
   (\<exists>s. init example_filters (Img2 [[1]]) (DvScalar 0) (PyStr ''high'') = Inr s \<and>
        beam_energy s = PyStr ''high'')"
  by (simp add: eval_defs)

text \<open>The setter does validate: a value that is neither an int nor a float raises a
  TypeError, a number that is not positive a ValueError, and otherwise \<^verbatim>\<open>float(val)\<close>
  is stored, unless the conversion of a large int raises an OverflowError.\<close>

lemma set_energy_rejects:
  "as_number v = None \<Longrightarrow> set_energy v s = Raised TypeError s"
  "as_number v = Some n \<Longrightarrow> nonpositive n \<Longrightarrow> set_energy v s = Raised ValueError s"
  by (simp_all add: set_energy_def)

lemma set_energy_accepts:
  "as_number v = Some n \<Longrightarrow> \<not> nonpositive n \<Longrightarrow> float_of n = Inr f \<Longrightarrow>
   set_energy v s = Done (s\<lparr>beam_energy_priv := Some f\<rparr>)"
  by (simp add: set_energy_def)

lemma set_energy_rounds:
  "set_energy (PyInt (2 ^ 53 + 1)) s = Done (s\<lparr>beam_energy_priv := Some (Finite (2 ^ 53))\<rparr>)"
  using float_of_int_rounds by (simp add: set_energy_def)

lemma set_energy_overflow:
  "set_energy (PyInt (2 ^ 1024)) s = Raised OverflowError s"
  using float_of_int_overflow by (simp add: set_energy_def)

section \<open>The filter stage on a dataset that was never cropped\<close>

text \<open>
  Claim C4. An operation that raises should leave no cache, stage flag or parameter record
  changed. Constructing with three images and two defocus values does fail with a
  ValueError and yields no object. But \<^verbatim>\<open>filter\<close> on a newly constructed dataset
  raises an IndexError at line 435 after it has set the filtered flag, recorded the filter
  parameters and bound \<^verbatim>\<open>_images_filtered\<close> to a zero-dimensional array.
\<close>

theorem C4_filter_raises_after_mutation:
  "init example_filters (Img3 [[[1]], [[2]], [[3]]]) (DvSeq [- 10, 10]) PyNone = Inl ValueError \<and>
   init example_filters (Img3 [[[1, 2], [3, 4]], [[5, 6], [7, 8]]]) (DvSeq [- 10, 10]) PyNone
     = Inr example_dataset \<and>
   \<not> filtered example_dataset \<and> images_filtered example_dataset = FNone \<and>
   q_lowpass (filters example_dataset) = None \<and>
   (\<exists>s'. filter_stage example_lib (Some (1 / 10)) None ''butterworth'' 2 IdxNone example_dataset
           = Raised IndexError s' \<and>
         filtered s' \<and> images_filtered s' = FZeroDim \<and> q_lowpass (filters s') = Some (1 / 10))"
  by (simp add: eval_defs)

text \<open>
  Claim C2. Filtering a subset of indices should write the results into the selected
  indices of Filtered (a zero stack if absent) and of Current View, in any prior stage
  state, raw only included. On a dataset that is raw only, filtering index 0 raises an
  IndexError: Filtered is no stack afterwards and Current View is as before, so nothing
  was written at index 0.
\<close>

theorem C2_filter_raw_only_writes_nothing:
  "\<not> cropped example_dataset \<and> \<not> preprocessed example_dataset \<and>
   (\<exists>s'. filter_stage example_lib None None ''gaussian'' 2 (IdxInt 0) example_dataset
           = Raised IndexError s' \<and>
         filtered_cache s' = None \<and> images s' = images example_dataset)"
  by (simp add: eval_defs)

section \<open>Datasets reached from construction\<close>

lemma reachable:
  assumes "init F ims dfs en = Inr s0"
  shows "consistent (run L cs s0)" and "flags_ok (run L cs s0)"
    and "raw (run L cs s0) = raw s0" and "orig_images (run L cs s0) = orig_images s0"
  using run_invariants[OF init_invariants(1,2)[OF assms], of L cs]
  by (simp_all add: keeps_raw_def)

lemma run_length:
  assumes "init F ims dfs en = Inr s0"
  shows "length (defvals (run L cs s0)) = length (promote ims)"
    and "length (images (run L cs s0)) = length (promote ims)"
  using consistent_lengths(1,2)[OF reachable(1)[OF assms, of L cs]]
    reachable(3)[OF assms, of L cs] init_invariants(5)[OF assms]
  by simp_all

section \<open>The images and the defocus values\<close>

text \<open>
  Claim C1. After a construction that succeeds and any sequence of calls (the stages, the
  ROI selection, assignments to \<^verbatim>\<open>images\<close>, \<^verbatim>\<open>defvals\<close>, \<^verbatim>\<open>energy\<close> and the
  transform parameters, failing calls included), \<^verbatim>\<open>len(images) == len(defvals)\<close>;
  and assigning images, a sequence of defocus values or a scalar defocus value of another
  length raises a ValueError and leaves the dataset as it was.
\<close>

theorem C1_lengths_agree:
  assumes "init F ims dfs en = Inr s0"
  shows "length (images (run L cs s0)) = length (defvals (run L cs s0)) \<and>
    (length (promote new) \<noteq> length (defvals (run L cs s0)) \<longrightarrow>
       set_images new (run L cs s0) = Raised ValueError (run L cs s0)) \<and>
    (length ds \<noteq> length (images (run L cs s0)) \<longrightarrow>
       set_defvals (DvSeq ds) (run L cs s0) = Raised ValueError (run L cs s0)) \<and>
    (1 \<noteq> length (images (run L cs s0)) \<longrightarrow>
       set_defvals (DvScalar d) (run L cs s0) = Raised ValueError (run L cs s0))"
  using consistent_lengths(1)[OF reachable(1)[OF assms, of L cs]]
  by (simp add: set_images_def images_setter_def set_defvals_def defvals_checked_def)

theorem C1_lengths_agree_witness:
  "init example_filters (Img3 [[[1, 2], [3, 4]], [[5, 6], [7, 8]]]) (DvSeq [- 10, 10]) PyNone
     = Inr example_dataset \<and>
   length (images (run example_lib example_calls example_dataset))
     = length (defvals (run example_lib example_calls example_dataset)) \<and>
   length (promote (Img2 [[0]])) \<noteq> length (defvals (run example_lib example_calls example_dataset)) \<and>
   set_images (Img2 [[0]]) (run example_lib example_calls example_dataset)
     = Raised ValueError (run example_lib example_calls example_dataset) \<and>
   length [0, 1, 2 :: real] \<noteq> length (images (run example_lib example_calls example_dataset)) \<and>
   set_defvals (DvSeq [0, 1, 2]) (run example_lib example_calls example_dataset)
     = Raised ValueError (run example_lib example_calls example_dataset) \<and>
   1 \<noteq> length (images (run example_lib example_calls example_dataset)) \<and>
   set_defvals (DvScalar 0) (run example_lib example_calls example_dataset)
     = Raised ValueError (run example_lib example_calls example_dataset)"
proof -
  have h: "init example_filters (Img3 [[[1, 2], [3, 4]], [[5, 6], [7, 8]]]) (DvSeq [- 10, 10]) PyNone
     = Inr example_dataset"
    by (simp add: eval_defs)
  show ?thesis
    using h run_length[OF h, of example_lib example_calls]
      C1_lengths_agree[OF h, of example_lib example_calls "Img2 [[0]]" "[0, 1, 2]" 0]
    by simp
qed

section \<open>The Raw cache\<close>

text \<open>
  Claim C7. The array that \<^verbatim>\<open>_orig_images\<close> refers to is the copy made at construction,
  and its contents never change, whatever sequence of calls follows (\<^verbatim>\<open>preprocess\<close>,
  \<^verbatim>\<open>apply_transforms\<close>, \<^verbatim>\<open>filter\<close>, \<^verbatim>\<open>select_ROI\<close>,
  \<^verbatim>\<open>reset_transforms\<close>, and the assignments as well): every write in place goes to the
  array of Current View or of Filtered, and neither is ever the array of Raw.
\<close>

theorem C7_raw_never_mutated:
  assumes "init F ims dfs en = Inr s0"
  shows "raw (run L cs s0) = raw s0 \<and> raw s0 = promote ims \<and>
         orig_images (run L cs s0) = orig_images s0"
  using reachable(3,4)[OF assms] init_invariants(5)[OF assms] by simp

theorem C7_raw_never_mutated_witness:
  "init example_filters (Img3 [[[1, 2], [3, 4]], [[5, 6], [7, 8]]]) (DvSeq [- 10, 10]) PyNone
     = Inr example_dataset \<and>
   raw (run example_lib example_calls example_dataset) = [[[1, 2], [3, 4]], [[5, 6], [7, 8]]]"
proof -
  have h: "init example_filters (Img3 [[[1, 2], [3, 4]], [[5, 6], [7, 8]]]) (DvSeq [- 10, 10]) PyNone
     = Inr example_dataset"
    by (simp add: eval_defs)
  show ?thesis
    using h C7_raw_never_mutated[OF h, of example_lib example_calls] by simp
qed

section \<open>Reading the energy\<close>

text \<open>
  Claim C10. On a newly constructed dataset, whatever the \<^verbatim>\<open>beam_energy\<close> argument was,
  reading \<^verbatim>\<open>energy\<close> raises an AttributeError, and it goes on doing so through any
  sequence of calls that does not assign \<^verbatim>\<open>energy\<close>: the constructor stores the
  argument in the plain attribute \<^verbatim>\<open>beam_energy\<close> and \<^verbatim>\<open>_beam_energy\<close> does not exist
  (the base class is taken not to create it). Once an assignment through the setter has
  returned, the getter returns a float; for a positive int below \<open>2 ^ 53\<close> it is that
  number.
\<close>

theorem C10_energy_unset_until_assigned:
  assumes "init F ims dfs en = Inr s0" and "\<forall>c\<in>set cs. \<not> assigns_energy c"
  shows "energy (run L cs s0) = Inl AttributeError \<and>
    (set_energy v (run L cs s0) = Done s' \<longrightarrow> (\<exists>y. energy s' = Inr y)) \<and>
    (0 < i \<and> i < 2 ^ 53 \<longrightarrow>
       energy (state_of (set_energy (PyInt i) (run L cs s0))) = Inr (Finite (real_of_int i)))"
proof -
  have "beam_energy_priv (run L cs s0) = None"
    using run_energy[OF init_invariants(1)[OF assms(1)] assms(2), of L]
      init_invariants(4)[OF assms(1)] by simp
  then have a: "energy (run L cs s0) = Inl AttributeError"
    by (simp add: energy_def)
  have b: "\<exists>y. energy s' = Inr y" if "set_energy v (run L cs s0) = Done s'"
    using that by (auto simp: set_energy_def energy_def split: option.splits if_splits sum.splits)
  have c: "energy (state_of (set_energy (PyInt i) (run L cs s0))) = Inr (Finite (real_of_int i))"
    if "0 < i" "i < 2 ^ 53"
  proof -
    from that have "\<bar>i\<bar> < 2 ^ 53" by simp
    from float_of_int_small[OF this] that(1) show ?thesis
      by (simp add: set_energy_def energy_def)
  qed
  show ?thesis using a b c by blast
qed

theorem C10_energy_unset_until_assigned_witness:
  "init example_filters (Img3 [[[1, 2], [3, 4]], [[5, 6], [7, 8]]]) (DvSeq [- 10, 10])
     (PyFloat (Finite 200)) = Inr (example_dataset\<lparr>beam_energy := PyFloat (Finite 200)\<rparr>) \<and>
   energy (run example_lib example_calls (example_dataset\<lparr>beam_energy := PyFloat (Finite 200)\<rparr>))
     = Inl AttributeError \<and>
   set_energy (PyFloat (Finite 200))
       (run example_lib example_calls (example_dataset\<lparr>beam_energy := PyFloat (Finite 200)\<rparr>))
     = Done ((run example_lib example_calls (example_dataset\<lparr>beam_energy := PyFloat (Finite 200)\<rparr>))
          \<lparr>beam_energy_priv := Some (Finite 200)\<rparr>) \<and>
   (\<exists>y. energy ((run example_lib example_calls
          (example_dataset\<lparr>beam_energy := PyFloat (Finite 200)\<rparr>))
          \<lparr>beam_energy_priv := Some (Finite 200)\<rparr>) = Inr y) \<and>
   (0 :: int) < 300 \<and> (300 :: int) < 2 ^ 53 \<and>
   energy (state_of (set_energy (PyInt 300)
       (run example_lib example_calls (example_dataset\<lparr>beam_energy := PyFloat (Finite 200)\<rparr>))))
     = Inr (Finite 300)"
proof -
  have h: "init example_filters (Img3 [[[1, 2], [3, 4]], [[5, 6], [7, 8]]]) (DvSeq [- 10, 10])
      (PyFloat (Finite 200)) = Inr (example_dataset\<lparr>beam_energy := PyFloat (Finite 200)\<rparr>)"
    by (simp add: eval_defs)
  have c: "\<forall>c\<in>set example_calls. \<not> assigns_energy c"
    by (simp add: example_calls_def)
  have d: "set_energy (PyFloat (Finite 200)) s = Done (s\<lparr>beam_energy_priv := Some (Finite 200)\<rparr>)"
    for s
    by (simp add: set_energy_def)
  have n: "(0 :: int) < 300 \<and> (300 :: int) < 2 ^ 53" by simp
  show ?thesis
    using h d n C10_energy_unset_until_assigned[OF h c, where v = "PyFloat (Finite 200)"
        and s' = "(run example_lib example_calls (example_dataset\<lparr>beam_energy := PyFloat (Finite 200)\<rparr>))
          \<lparr>beam_energy_priv := Some (Finite 200)\<rparr>"
        and i = 300 and L = example_lib]
    by simp
qed

section \<open>Preprocessing twice\<close>

text \<open>
  Claim C8. On any dataset reached from construction, \<^verbatim>\<open>preprocess\<close> returns, and
  called a second time with the same parameters it returns again with the same
  Preprocessed cache: the hot-pixel and median processing of Raw, applied once. The first
  step of each call binds Current View to a copy of Raw.
\<close>

theorem C8_preprocess_rebuilds_from_raw:
  assumes "init F ims dfs en = Inr s0" and "s = run L cs s0"
  shows "\<exists>s1 s2. preprocess L hp m fast s = Done s1 \<and> preprocess L hp m fast s1 = Done s2 \<and>
     preprocessed_cache s1 = Some (preprocessed_of L hp m fast (raw s)) \<and>
     preprocessed_cache s2 = preprocessed_cache s1 \<and>
     (\<exists>t. images_setter (raw s) s = Done t \<and> images t = raw s)"
proof -
  have c: "consistent s" using reachable(1)[OF assms(1)] assms(2) by simp
  define s1 where "s1 = state_of (preprocess L hp m fast s)"
  define s2 where "s2 = state_of (preprocess L hp m fast s1)"
  note P1 = preprocess_result[OF c, of L hp m fast, folded s1_def]
  have c1: "consistent s1" and r1: "raw s1 = raw s"
    using P1(2) by (simp_all add: keeps_raw_def)
  note P2 = preprocess_result[OF c1, of L hp m fast, folded s2_def]
  have "images_setter (raw s) s = Done (bind_images (raw s) s)"
    using consistent_lengths(2)[OF c] by (simp add: images_setter_def)
  moreover have "images (bind_images (raw s) s) = raw s"
    by (simp add: images_def)
  ultimately show ?thesis
    using P1(1,3) P2(1,3) r1 by auto
qed

theorem C8_preprocess_rebuilds_from_raw_witness:
  "init example_filters (Img3 [[[1, 2], [3, 4]], [[5, 6], [7, 8]]]) (DvSeq [- 10, 10]) PyNone
     = Inr example_dataset \<and>
   (\<exists>s1 s2. preprocess example_lib True (Some 3) False
        (run example_lib example_calls example_dataset) = Done s1 \<and>
      preprocess example_lib True (Some 3) False s1 = Done s2 \<and>
      preprocessed_cache s1 = Some (preprocessed_of example_lib True (Some 3) False
        (raw (run example_lib example_calls example_dataset))) \<and>
      preprocessed_cache s2 = preprocessed_cache s1)"
proof -
  have h: "init example_filters (Img3 [[[1, 2], [3, 4]], [[5, 6], [7, 8]]]) (DvSeq [- 10, 10]) PyNone
     = Inr example_dataset"
    by (simp add: eval_defs)
  show ?thesis
    using h C8_preprocess_rebuilds_from_raw[OF h refl, of example_lib True "Some 3" False example_calls]
    by blast
qed

lemmas run_defs = example_cropped_def example_filtered_def apply_transforms_def transform_base_def
  transformed_def crop_def py_slice_def slice_bound_def images_setter_def bind_defs fresh_def
  overwrite_def put_frames_def broadcast_to_def zeros_like_def recorded_bandpass_def
  cropped_cache_def

lemma map_nth_fun: "map (\<lambda>j. f (xs ! j)) [0..<length xs] = map f xs"
  by (rule nth_equalityI) simp_all

lemma filter_stage_selected:
  fixes L :: lib and s :: dataset and ql qh :: "real option" and ft :: string and bo :: int
  assumes c: "consistent s" and fl: "flags_ok s" and so: "shapes_ok s" and ks: "keeps_shape L"
    and d: "filter_stage L ql qh ft bo idx s = Done r"
  shows "idx = IdxNone \<Longrightarrow> filtered_cache r = Some (images r)"
    and "indices_of (length (images s)) idx = Some ixs \<Longrightarrow> i \<in> set ixs \<Longrightarrow>
         \<exists>j f. norm_index (length (images s)) i = Some j \<and> filtered_cache r = Some f \<and>
               images r ! j = f ! j"
proof -
  from filter_stage_Done_D[OF d c fl] obtain ixs0 js where cr: "cropped s"
    and ix: "indices_of (length (images s)) idx = Some ixs0"
    and js: "norm_indices (length (defvals s)) ixs0 = Some js"
    by auto
  define crp where "crp = the (cropped_cache s)"
  define vals where "vals = map (\<lambda>j. bandpass_filter L (crp ! j) ql qh ft bo) js"
  define old where "old = (case filtered_cache s of Some fc \<Rightarrow> fc | None \<Rightarrow> zeros_like crp)"
  have r: "r = state_of (filter_stage L ql qh ft bo idx s)" using d by simp
  note R = filter_stage_result[OF c fl so cr ks ix js, of ql qh ft bo,
      folded r crp_def, folded vals_def old_def]
  have li: "length (images s) = length (defvals s)"
    using consistent_lengths(1)[OF c] .
  from cr fl obtain cref where cref: "images_cropped s = Some cref"
    by (auto simp: flags_ok_def)
  have lc: "length crp = length (defvals s)"
    using consistent_lengths(4)[OF c cref] by (simp add: crp_def cropped_cache_def cref)
  have lo: "length old = length (defvals s)"
  proof (cases "images_filtered s")
    case (FArr f)
    then show ?thesis
      using consistent_lengths(5)[OF c FArr] by (simp add: old_def filtered_cache_def)
  qed (simp_all add: old_def filtered_cache_def lc)
  have lv: "length vals = length js" by (simp add: vals_def)
  show "filtered_cache r = Some (images r)" if "idx = IdxNone"
  proof -
    from that ix have "ixs0 = map int [0..<length (defvals s)]" by (simp add: li)
    with js have j: "js = [0..<length (defvals s)]" by (simp add: norm_indices_upt)
    have "write_all (zip js vals) (images s) = vals"
      using write_all_full[of vals "images s"] lv li j by simp
    moreover have "write_all (zip js vals) old = vals"
      using write_all_full[of vals old] lv lo j by simp
    ultimately show ?thesis using R(2,3) by simp
  qed
  show "\<exists>j f. norm_index (length (images s)) i = Some j \<and> filtered_cache r = Some f \<and>
               images r ! j = f ! j"
    if "indices_of (length (images s)) idx = Some ixs" "i \<in> set ixs"
  proof -
    from that ix have "i \<in> set ixs0" by simp
    with norm_indices_D(3)[OF js] obtain j where j: "j \<in> set js"
      "norm_index (length (defvals s)) i = Some j" by auto
    have jn: "j < length (defvals s)" using norm_indices_D(2)[OF js] j(1) by simp
    have "fst ` set (zip js vals) = set js"
      using lv by (metis map_fst_zip set_map)
    with j(1) have "write_all (zip js vals) (images s) ! j = write_all (zip js vals) old ! j"
      using jn li lo by (intro write_all_same) simp_all
    then show ?thesis using R(2,3) j(2) li by simp
  qed
qed

section \<open>Current View and the cache produced last\<close>

text \<open>
  Claim C6, as stated, fails: a filter of frame 0 on a cropped dataset of two frames
  returns, sets the filtered flag, and leaves Current View different from Filtered, which
  holds zeros at frame 1 where Current View keeps the cropped frame.
\<close>

theorem C6_subset_filter_counterexample:
  "filter_stage example_lib None None ''butterworth'' 2 (IdxInt 0) example_cropped
     = Done example_filtered \<and>
   filtered example_filtered \<and>
   images example_filtered = [[[2, 3], [4, 5]], [[5, 6], [7, 8]]] \<and>
   filtered_cache example_filtered = Some [[[2, 3], [4, 5]], [[0, 0], [0, 0]]] \<and>
   filtered_cache example_filtered \<noteq> Some (images example_filtered)"
  by (simp add: eval_defs run_defs)

text \<open>
  Claim C6, amended. On any dataset reached from construction, \<^verbatim>\<open>apply_transforms\<close>,
  \<^verbatim>\<open>preprocess\<close> and \<^verbatim>\<open>reset_transforms\<close> return and leave Current View equal to
  Filtered when the filtered flag is set and to Cropped otherwise. When the bandpass
  filter keeps the shape of its argument and \<^verbatim>\<open>images\<close> was never assigned by the user,
  after a \<^verbatim>\<open>filter\<close> call that returns Current View equals Filtered at every selected
  index, and the whole arrays are equal when all indices were selected. At every index
  that is not selected, after a \<^verbatim>\<open>filter\<close> call that returns, Current View keeps its
  previous frame, a Filtered cache that the call allocated holds a zero frame of the shape
  of the Cropped frame, and a Filtered cache that was there before keeps its frame.
\<close>

theorem C6_view_is_latest_amended:
  assumes "init F ims dfs en = Inr s0" and "s = run L cs s0"
  shows "(\<exists>s'. apply_transforms L s = Done s' \<and> view_is_latest s') \<and>
    (\<exists>s'. preprocess L hp m fast s = Done s' \<and> view_is_latest s') \<and>
    (\<exists>s'. reset_transforms L s = Done s' \<and> view_is_latest s') \<and>
    (keeps_shape L \<and> (\<forall>c\<in>set cs. \<not> assigns_images c) \<longrightarrow>
       (\<forall>s'. filter_stage L ql qh ft bo IdxNone s = Done s' \<longrightarrow>
          filtered_cache s' = Some (images s')) \<and>
       (\<forall>s' ixs i. filter_stage L ql qh ft bo idx s = Done s' \<and>
          indices_of (length (images s)) idx = Some ixs \<and> i \<in> set ixs \<longrightarrow>
          (\<exists>j f. norm_index (length (images s)) i = Some j \<and> filtered_cache s' = Some f \<and>
                 images s' ! j = f ! j))) \<and>
    (\<forall>s' ixs js j. filter_stage L ql qh ft bo idx s = Done s' \<and>
       indices_of (length (images s)) idx = Some ixs \<and>
       norm_indices (length (images s)) ixs = Some js \<and> j \<notin> set js \<and>
       j < length (images s) \<longrightarrow>
       images s' ! j = images s ! j \<and>
       (filtered_cache s = None \<longrightarrow>
          (\<exists>f cr. filtered_cache s' = Some f \<and> cropped_cache s = Some cr \<and>
                  f ! j = map (map (\<lambda>_. 0)) (cr ! j))) \<and>
       (\<forall>fc. filtered_cache s = Some fc \<longrightarrow>
          (\<exists>f. filtered_cache s' = Some f \<and> f ! j = fc ! j)))"
proof -
  have c: "consistent s" and fl: "flags_ok s"
    using reachable(1,2)[OF assms(1)] assms(2) by simp_all
  have u: "images s' ! j = images s ! j \<and>
       (filtered_cache s = None \<longrightarrow>
          (\<exists>f cr. filtered_cache s' = Some f \<and> cropped_cache s = Some cr \<and>
                  f ! j = map (map (\<lambda>_. 0)) (cr ! j))) \<and>
       (\<forall>fc. filtered_cache s = Some fc \<longrightarrow>
          (\<exists>f. filtered_cache s' = Some f \<and> f ! j = fc ! j))"
    if "filter_stage L ql qh ft bo idx s = Done s'"
      and "indices_of (length (images s)) idx = Some ixs"
      and "norm_indices (length (images s)) ixs = Some js" and "j \<notin> set js"
      and "j < length (images s)" for s' ixs js j
    using filter_stage_unselected[OF c fl that] by blast
  have a: "\<exists>s'. apply_transforms L s = Done s' \<and> view_is_latest s'"
    using done_apply_transforms[OF c fl] view_is_latest_apply_transforms[OF c fl] by blast
  have p: "\<exists>s'. preprocess L hp m fast s = Done s' \<and> view_is_latest s'"
    using preprocess_result(1,4)[OF c] by blast
  have rs: "\<exists>s'. reset_transforms L s = Done s' \<and> view_is_latest s'"
    using reset_transforms_result(3,4)[OF c fl] by blast
  have f: "(\<forall>s'. filter_stage L ql qh ft bo IdxNone s = Done s' \<longrightarrow>
          filtered_cache s' = Some (images s')) \<and>
       (\<forall>s' ixs i. filter_stage L ql qh ft bo idx s = Done s' \<and>
          indices_of (length (images s)) idx = Some ixs \<and> i \<in> set ixs \<longrightarrow>
          (\<exists>j f. norm_index (length (images s)) i = Some j \<and> filtered_cache s' = Some f \<and>
                 images s' ! j = f ! j))"
    if ks: "keeps_shape L" and ni: "\<forall>c\<in>set cs. \<not> assigns_images c"
  proof -
    have so: "shapes_ok s"
      using run_shapes_ok[OF init_invariants(1,2,3)[OF assms(1)] ks ni] assms(2) by simp
    show ?thesis
      using filter_stage_selected[OF c fl so ks] by blast
  qed
  show ?thesis using a p rs f u by blast
qed

theorem C6_view_is_latest_amended_witness:
  "init example_filters (Img3 [[[1, 2], [3, 4]], [[5, 6], [7, 8]]]) (DvSeq [- 10, 10]) PyNone
     = Inr example_dataset \<and>
   keeps_shape example_lib \<and>
   (\<exists>s'. apply_transforms example_lib example_cropped = Done s' \<and> view_is_latest s') \<and>
   (\<exists>s'. preprocess example_lib True None True example_cropped = Done s' \<and> view_is_latest s') \<and>
   (\<exists>s'. reset_transforms example_lib example_cropped = Done s' \<and> view_is_latest s') \<and>
   (\<exists>s'. filter_stage example_lib None None ''butterworth'' 2 IdxNone example_cropped = Done s' \<and>
      filtered_cache s' = Some (images s')) \<and>
   filter_stage example_lib None None ''butterworth'' 2 (IdxInt 0) example_cropped
     = Done example_filtered \<and>
   indices_of (length (images example_cropped)) (IdxInt 0) = Some [0] \<and>
   (\<exists>j f. norm_index (length (images example_cropped)) 0 = Some j \<and>
      filtered_cache example_filtered = Some f \<and> images example_filtered ! j = f ! j) \<and>
   norm_indices (length (images example_cropped)) [0] = Some [0] \<and>
   (1 :: nat) \<notin> set [0] \<and> 1 < length (images example_cropped) \<and>
   images example_filtered ! 1 = images example_cropped ! 1 \<and>
   filtered_cache example_cropped = None \<and>
   (\<exists>f cr. filtered_cache example_filtered = Some f \<and> cropped_cache example_cropped = Some cr \<and>
      f ! 1 = map (map (\<lambda>_. 0)) (cr ! 1)) \<and>
   filter_stage example_lib None None ''butterworth'' 2 (IdxInt 0) example_filtered
     = Done (state_of
         (filter_stage example_lib None None ''butterworth'' 2 (IdxInt 0) example_filtered)) \<and>
   filtered_cache example_filtered = Some [[[2, 3], [4, 5]], [[0, 0], [0, 0]]] \<and>
   (\<exists>f. filtered_cache (state_of
         (filter_stage example_lib None None ''butterworth'' 2 (IdxInt 0) example_filtered)) = Some f \<and>
      f ! 1 = [[[2, 3], [4, 5]], [[0, 0], [0, 0]]] ! 1)"
proof -
  have h: "init example_filters (Img3 [[[1, 2], [3, 4]], [[5, 6], [7, 8]]]) (DvSeq [- 10, 10]) PyNone
     = Inr example_dataset"
    by (simp add: eval_defs)
  have ks: "keeps_shape example_lib"
    by (simp add: keeps_shape_def example_lib_def)
  have ni: "\<forall>c\<in>set [ApplyTransforms]. \<not> assigns_images c"
    by simp
  have d0: "filter_stage example_lib None None ''butterworth'' 2 (IdxInt 0) example_cropped
     = Done example_filtered"
    by (simp add: eval_defs run_defs)
  have dn: "filter_stage example_lib None None ''butterworth'' 2 IdxNone example_cropped
     = Done (state_of (filter_stage example_lib None None ''butterworth'' 2 IdxNone example_cropped))"
    by (simp add: eval_defs run_defs)
  have ix: "indices_of (length (images example_cropped)) (IdxInt 0) = Some [0]"
    by simp
  note T = C6_view_is_latest_amended[OF h example_cropped_def, where ql = None and qh = None
      and ft = "''butterworth''" and bo = 2 and idx = "IdxInt 0" and hp = True and m = None
      and fast = True]
  from T have stages:
    "(\<exists>s'. apply_transforms example_lib example_cropped = Done s' \<and> view_is_latest s') \<and>
     (\<exists>s'. preprocess example_lib True None True example_cropped = Done s' \<and> view_is_latest s') \<and>
     (\<exists>s'. reset_transforms example_lib example_cropped = Done s' \<and> view_is_latest s')"
    by blast
  from T ks ni have F:
    "(\<forall>s'. filter_stage example_lib None None ''butterworth'' 2 IdxNone example_cropped = Done s' \<longrightarrow>
          filtered_cache s' = Some (images s')) \<and>
     (\<forall>s' ixs i. filter_stage example_lib None None ''butterworth'' 2 (IdxInt 0) example_cropped = Done s' \<and>
          indices_of (length (images example_cropped)) (IdxInt 0) = Some ixs \<and> i \<in> set ixs \<longrightarrow>
          (\<exists>j f. norm_index (length (images example_cropped)) i = Some j \<and>
             filtered_cache s' = Some f \<and> images s' ! j = f ! j))"
    by blast
  have all: "\<exists>s'. filter_stage example_lib None None ''butterworth'' 2 IdxNone example_cropped = Done s' \<and>
      filtered_cache s' = Some (images s')"
    using F dn by blast
  have "(0 :: int) \<in> set [0]" by simp
  with F d0 ix have sel: "\<exists>j f. norm_index (length (images example_cropped)) 0 = Some j \<and>
      filtered_cache example_filtered = Some f \<and> images example_filtered ! j = f ! j"
    by blast
  have nj: "norm_indices (length (images example_cropped)) [0] = Some [0]"
    and j1: "(1 :: nat) \<notin> set [0]" and l1: "1 < length (images example_cropped)"
    and fcn: "filtered_cache example_cropped = None"
    by (simp_all add: eval_defs run_defs)
  from T have U:
    "\<forall>s' ixs js j. filter_stage example_lib None None ''butterworth'' 2 (IdxInt 0) example_cropped = Done s' \<and>
       indices_of (length (images example_cropped)) (IdxInt 0) = Some ixs \<and>
       norm_indices (length (images example_cropped)) ixs = Some js \<and> j \<notin> set js \<and>
       j < length (images example_cropped) \<longrightarrow>
       images s' ! j = images example_cropped ! j \<and>
       (filtered_cache example_cropped = None \<longrightarrow>
          (\<exists>f cr. filtered_cache s' = Some f \<and> cropped_cache example_cropped = Some cr \<and>
                  f ! j = map (map (\<lambda>_. 0)) (cr ! j)))"
    by blast
  from U d0 ix nj j1 l1 fcn have unsel:
    "images example_filtered ! 1 = images example_cropped ! 1 \<and>
     (\<exists>f cr. filtered_cache example_filtered = Some f \<and> cropped_cache example_cropped = Some cr \<and>
        f ! 1 = map (map (\<lambda>_. 0)) (cr ! 1))"
    by blast
  have eqB: "example_filtered = run example_lib
      [ApplyTransforms, Filter None None ''butterworth'' 2 (IdxInt 0)] example_dataset"
    by (simp add: example_filtered_def example_cropped_def)
  have dB: "filter_stage example_lib None None ''butterworth'' 2 (IdxInt 0) example_filtered
     = Done (state_of
         (filter_stage example_lib None None ''butterworth'' 2 (IdxInt 0) example_filtered))"
    and ixB: "indices_of (length (images example_filtered)) (IdxInt 0) = Some [0]"
    and njB: "norm_indices (length (images example_filtered)) [0] = Some [0]"
    and lB: "1 < length (images example_filtered)"
    and fcB: "filtered_cache example_filtered = Some [[[2, 3], [4, 5]], [[0, 0], [0, 0]]]"
    by (simp_all add: eval_defs run_defs)
  note TB = C6_view_is_latest_amended[OF h eqB, where ql = None and qh = None
      and ft = "''butterworth''" and bo = 2 and idx = "IdxInt 0"]
  from TB have UB:
    "\<forall>s' ixs js j. filter_stage example_lib None None ''butterworth'' 2 (IdxInt 0) example_filtered = Done s' \<and>
       indices_of (length (images example_filtered)) (IdxInt 0) = Some ixs \<and>
       norm_indices (length (images example_filtered)) ixs = Some js \<and> j \<notin> set js \<and>
       j < length (images example_filtered) \<longrightarrow>
       (\<forall>fc. filtered_cache example_filtered = Some fc \<longrightarrow>
          (\<exists>f. filtered_cache s' = Some f \<and> f ! j = fc ! j))"
    by blast
  from UB dB ixB njB j1 lB fcB have kept:
    "\<exists>f. filtered_cache (state_of
         (filter_stage example_lib None None ''butterworth'' 2 (IdxInt 0) example_filtered)) = Some f \<and>
      f ! 1 = [[[2, 3], [4, 5]], [[0, 0], [0, 0]]] ! 1"
    by blast
  show ?thesis
    using h ks stages all d0 ix sel nj j1 l1 unsel fcn dB fcB kept by blast
qed

section \<open>Changing the transform parameters after a filter\<close>

lemma consistent_clear_filtered:
  "consistent s \<Longrightarrow> consistent (s\<lparr>images_filtered := FNone\<rparr>)"
  by (auto simp: consistent_defs)

text \<open>
  Claim C3. Take a dataset reached from construction whose filtered flag is set, and new
  transform parameters \<open>T\<close>. \<^verbatim>\<open>apply_transforms\<close> returns and leaves Filtered and Current
  View equal to what the manual way gives: the same dataset with no trace of the filter
  stage, transformed with \<open>T\<close> (which yields the same Cropped cache and no Filtered
  cache), then filtered over all indices with the recorded parameters. Calling
  \<^verbatim>\<open>filter\<close> over all indices with the recorded parameters on the result of
  \<^verbatim>\<open>apply_transforms\<close> itself changes neither array. The bandpass filter is taken to
  keep the shape of its argument.
\<close>

theorem C3_refilter_after_transform_change:
  assumes "init F ims dfs en = Inr s0" and "s = run L cs s0" and "filtered s"
    and "keeps_shape L"
  shows "\<exists>s' u u'. apply_transforms L (s\<lparr>transforms := T\<rparr>) = Done s' \<and>
      apply_transforms L (s\<lparr>transforms := T, filtered := False, images_filtered := FNone\<rparr>)
        = Done u \<and>
      filter_stage L (q_lowpass (filters s)) (q_highpass (filters s)) (filter_type (filters s))
        (butterworth_order (filters s)) IdxNone u = Done u' \<and>
      cropped_cache u = cropped_cache s' \<and> filtered_cache u = None \<and>
      filtered_cache s' = filtered_cache u' \<and> images s' = images u' \<and>
      filtered_cache s' \<noteq> None \<and>
      (\<exists>s''. filter_stage L (q_lowpass (filters s)) (q_highpass (filters s))
          (filter_type (filters s)) (butterworth_order (filters s)) IdxNone s' = Done s'' \<and>
        filtered_cache s'' = filtered_cache s' \<and> images s'' = images s')"
proof -
  have c: "consistent s" and fl: "flags_ok s"
    using reachable(1,2)[OF assms(1)] assms(2) by simp_all
  define t where "t = s\<lparr>transforms := T\<rparr>"
  define u0 where "u0 = s\<lparr>transforms := T, filtered := False, images_filtered := FNone\<rparr>"
  have ct: "consistent t" using c by (simp add: t_def)
  have cu0: "consistent u0"
    using consistent_clear_filtered[OF c] by (simp add: u0_def consistent_defs)
  have fu0: "flags_ok u0"
    using fl by (simp add: u0_def flags_ok_def filtered_ref_def)
  from flags_ok_base[OF fl] obtain b where b: "transform_base s = Some b" ..
  have bt: "transform_base t = Some b" and bu: "transform_base u0 = Some b"
    using b by (auto simp: t_def u0_def transform_base_def split: if_splits)
  define ims where "ims = transformed L T (heap s b)"
  define bp where "bp = recorded_bandpass L (filters s)"
  define s' where "s' = state_of (apply_transforms L t)"
  define u where "u = state_of (apply_transforms L u0)"
  note A = apply_transforms_result[OF ct bt, of L, folded s'_def]
  note B = apply_transforms_result[OF cu0 bu, of L, folded u_def]
  have a1: "apply_transforms L t = Done s'" using A(1) .
  have a3: "cropped_cache s' = Some ims" using A(3) by (simp add: t_def ims_def)
  have a4: "images s' = map bp ims"
    using A(4) assms(3) by (simp add: t_def ims_def bp_def)
  have a5: "filtered_cache s' = Some (map bp ims)"
    using A(5) assms(3) by (simp add: t_def ims_def bp_def)
  have b1: "apply_transforms L u0 = Done u" using B(1) .
  have b3: "cropped_cache u = Some ims" using B(3) by (simp add: u0_def ims_def)
  have b4: "images u = ims" using B(4) by (simp add: u0_def ims_def)
  have b6: "images_filtered u = FNone" using B(6) by (simp add: u0_def)
  have bf: "filters u = filters s" using B(12) by (simp add: u0_def)
  have cu: "consistent u" using B(2) by (simp add: keeps_raw_def)
  have fu: "flags_ok u" unfolding u_def using cu0 fu0 by (rule flags_ok_apply_transforms)
  have su: "shapes_ok u"
    unfolding u_def using cu0 fu0 assms(4) by (rule shapes_ok_apply_transforms)
  have lu: "length ims = length (defvals u)"
    using consistent_lengths(1)[OF cu] b4 by simp
  have ix: "indices_of (length (images u)) IdxNone = Some (map int [0..<length ims])"
    by (simp add: b4)
  have js: "norm_indices (length (defvals u)) (map int [0..<length ims]) = Some [0..<length ims]"
    using norm_indices_upt[of "length ims"] lu by simp
  define u' where "u' = state_of (filter_stage L (q_lowpass (filters s)) (q_highpass (filters s))
      (filter_type (filters s)) (butterworth_order (filters s)) IdxNone u)"
  note R = filter_stage_result[OF cu fu su B(9) assms(4) ix js,
      of "q_lowpass (filters s)" "q_highpass (filters s)" "filter_type (filters s)"
        "butterworth_order (filters s)", folded u'_def]
  have vals: "map (\<lambda>j. bandpass_filter L (ims ! j) (q_lowpass (filters s))
      (q_highpass (filters s)) (filter_type (filters s)) (butterworth_order (filters s)))
      [0..<length ims] = map bp ims"
    using map_nth_fun[of bp ims] by (simp add: bp_def recorded_bandpass_def)
  have fc: "filtered_cache u = None" using b6 by (simp add: filtered_cache_def)
  have r2: "images u' = map bp ims"
    using R(2) write_all_full[of "map bp ims" ims] by (simp add: b3 b4 vals)
  have r3: "filtered_cache u' = Some (map bp ims)"
    using R(3) write_all_full[of "map bp ims" "zeros_like ims"] by (simp add: fc b3 vals)
  have ft: "flags_ok t" using fl by (simp add: t_def)
  have cs': "consistent s'" using A(2) by (simp add: keeps_raw_def)
  have fs': "flags_ok s'" unfolding s'_def using ct ft by (rule flags_ok_apply_transforms)
  have ss': "shapes_ok s'"
    unfolding s'_def using ct ft assms(4) by (rule shapes_ok_apply_transforms)
  have ls': "length ims = length (defvals s')"
    using consistent_lengths(1)[OF cs'] a4 by simp
  have ix': "indices_of (length (images s')) IdxNone = Some (map int [0..<length ims])"
    by (simp add: a4)
  have js': "norm_indices (length (defvals s')) (map int [0..<length ims]) = Some [0..<length ims]"
    using norm_indices_upt[of "length ims"] ls' by simp
  define s'' where "s'' = state_of (filter_stage L (q_lowpass (filters s)) (q_highpass (filters s))
      (filter_type (filters s)) (butterworth_order (filters s)) IdxNone s')"
  note Q = filter_stage_result[OF cs' fs' ss' A(9) assms(4) ix' js',
      of "q_lowpass (filters s)" "q_highpass (filters s)" "filter_type (filters s)"
        "butterworth_order (filters s)", folded s''_def]
  have q2: "images s'' = map bp ims"
    using Q(2) write_all_full[of "map bp ims" "map bp ims"] by (simp add: a3 a4 vals)
  have q3: "filtered_cache s'' = Some (map bp ims)"
    using Q(3) write_all_full[of "map bp ims" "map bp ims"] by (simp add: a3 a5 vals)
  have again: "\<exists>s''. filter_stage L (q_lowpass (filters s)) (q_highpass (filters s))
          (filter_type (filters s)) (butterworth_order (filters s)) IdxNone s' = Done s'' \<and>
        filtered_cache s'' = filtered_cache s' \<and> images s'' = images s'"
    using Q(1) q2 q3 a4 a5 by auto
  have "apply_transforms L (s\<lparr>transforms := T\<rparr>) = Done s' \<and>
      apply_transforms L (s\<lparr>transforms := T, filtered := False, images_filtered := FNone\<rparr>)
        = Done u \<and>
      filter_stage L (q_lowpass (filters s)) (q_highpass (filters s)) (filter_type (filters s))
        (butterworth_order (filters s)) IdxNone u = Done u' \<and>
      cropped_cache u = cropped_cache s' \<and> filtered_cache u = None \<and>
      filtered_cache s' = filtered_cache u' \<and> images s' = images u' \<and>
      filtered_cache s' \<noteq> None"
    using a1 b1 R(1) a3 b3 fc a4 a5 r2 r3 unfolding t_def u0_def by simp
  with again show ?thesis by blast
qed

theorem C3_refilter_after_transform_change_witness:
  "init example_filters (Img3 [[[1, 2], [3, 4]], [[5, 6], [7, 8]]]) (DvSeq [- 10, 10]) PyNone
     = Inr example_dataset \<and>
   filtered (run example_lib example_calls example_dataset) \<and>
   keeps_shape example_lib \<and>
   (\<exists>s' u u'.
      apply_transforms example_lib
        ((run example_lib example_calls example_dataset)\<lparr>transforms := default_transforms (2, 2)\<rparr>)
        = Done s' \<and>
      apply_transforms example_lib
        ((run example_lib example_calls example_dataset)\<lparr>transforms := default_transforms (2, 2),
           filtered := False, images_filtered := FNone\<rparr>) = Done u \<and>
      filter_stage example_lib
        (q_lowpass (filters (run example_lib example_calls example_dataset)))
        (q_highpass (filters (run example_lib example_calls example_dataset)))
        (filter_type (filters (run example_lib example_calls example_dataset)))
        (butterworth_order (filters (run example_lib example_calls example_dataset))) IdxNone u
        = Done u' \<and>
      filtered_cache s' = filtered_cache u' \<and> images s' = images u')"
proof -
  have h: "init example_filters (Img3 [[[1, 2], [3, 4]], [[5, 6], [7, 8]]]) (DvSeq [- 10, 10]) PyNone
     = Inr example_dataset"
    by (simp add: eval_defs)
  have f: "filtered (run example_lib example_calls example_dataset)"
    by (simp add: eval_defs run_defs example_calls_def preprocess_def preprocess_images_def raw_def)
  have ks: "keeps_shape example_lib"
    by (simp add: keeps_shape_def example_lib_def)
  show ?thesis
    using h f ks C3_refilter_after_transform_change[OF h refl f ks, where T = "default_transforms (2, 2)"]
    by blast
qed

end
